theory Spec2Isabelle
  imports
    Main
    "HOL-Library.DAList"
    "HOL-Library.Product_Lexorder"
    "HOL-Library.Char_ord"
    "HOL-Library.List_Lexorder"
    "HOL-Library.Sublist"
begin

section \<open>Text primitives used by the statistics engine\<close>

text \<open>
  Python strings are modelled as HOL strings. The operations of this section depend on
  nothing but the characters themselves.
\<close>

text \<open>Dropping, at both ends, the characters that satisfy a predicate.\<close>

definition strip_with :: "(char \<Rightarrow> bool) \<Rightarrow> string \<Rightarrow> string" where
  "strip_with p s = rev (dropWhile p (rev (dropWhile p s)))"

text \<open>\<open>s.strip(chars)\<close>: drop leading and trailing characters that belong to the set.\<close>

definition strip_chars :: "string \<Rightarrow> string \<Rightarrow> string" where
  "strip_chars cs s = strip_with (\<lambda>c. c \<in> set cs) s"

text \<open>\<open>s.split(d)\<close> with an explicit one-character delimiter: never an empty list.\<close>

fun split_on :: "char \<Rightarrow> string \<Rightarrow> string list" where
  "split_on d [] = [[]]"
| "split_on d (c # cs) =
     (if c = d then [] # split_on d cs
      else (let r = split_on d cs in (c # hd r) # tl r))"

definition tab :: char where
  "tab = CHR 0x09"

text \<open>The double quote character.\<close>

definition dquote :: char where
  "dquote = CHR 0x22"

text \<open>\<open>sub in s\<close> on strings.\<close>

fun contains :: "string \<Rightarrow> string \<Rightarrow> bool" where
  "contains sub [] = (sub = [])"
| "contains sub (c # cs) = (take (length sub) (c # cs) = sub \<or> contains sub cs)"

definition endswith :: "string \<Rightarrow> string \<Rightarrow> bool" where
  "endswith s suf = (length suf \<le> length s \<and> drop (length s - length suf) s = suf)"

section \<open>Calendar dates\<close>

text \<open>
  A \<open>datetime.date\<close> is the triple (year, month, day); dates compare lexicographically,
  which is the order on triples in this theory.
\<close>

type_synonym date = "nat \<times> nat \<times> nat"

definition date_year :: "date \<Rightarrow> int" where
  "date_year d = int (fst d)"

definition digit_char :: "nat \<Rightarrow> char" where
  "digit_char n = char_of (48 + n mod 10)"

text \<open>\<open>date.isoformat()\<close>: \<open>YYYY-MM-DD\<close>, zero padded.\<close>

definition isoformat :: "date \<Rightarrow> string" where
  "isoformat dt =
     (case dt of (y, m, d) \<Rightarrow>
        [digit_char (y div 1000), digit_char (y div 100), digit_char (y div 10), digit_char y,
         CHR ''-'', digit_char (m div 10), digit_char m,
         CHR ''-'', digit_char (d div 10), digit_char d])"

section \<open>The functions of the Python library\<close>

text \<open>
  The engine calls five functions of the Python library whose results depend on the
  Unicode character tables, on the regular expressions of the date parser and on
  settings of the interpreter: \<open>str.isspace\<close> (through \<open>str.strip()\<close>),
  \<open>str.isdigit\<close>, \<open>str.lower\<close>, \<open>int\<close> and \<open>datetime.strptime\<close> with the format
  \<open>%Y-%m-%d\<close>. They are parameters of the model: every function of the engine that
  calls one of them takes the library as its first argument, and the theorems hold for
  every library. For \<open>int\<close> and \<open>strptime\<close> the result \<open>None\<close> stands for
  \<open>ValueError\<close>.
\<close>

record pylib =
  str_isspace :: "char \<Rightarrow> bool"
  str_isdigit :: "char \<Rightarrow> bool"
  str_lower :: "string \<Rightarrow> string"
  int_of_str :: "string \<Rightarrow> int option"
  strptime_ymd :: "string \<Rightarrow> date option"

text \<open>\<open>s.strip()\<close>: drop leading and trailing whitespace.\<close>

definition strip :: "pylib \<Rightarrow> string \<Rightarrow> string" where
  "strip lib s = strip_with (str_isspace lib) s"

section \<open>Counters\<close>

text \<open>
  A \<open>collections.Counter\<close> is a dictionary from keys to integers that remembers the
  order in which keys were first inserted: an association list with distinct keys. A new
  key is appended, an existing key is updated in place, which is what
  \<^const>\<open>DAList.update\<close> does.
\<close>

type_synonym 'k counter = "('k, int) alist"

definition items :: "'k counter \<Rightarrow> ('k \<times> int) list" where
  "items c = DAList.impl_of c"

text \<open>\<open>c[k]\<close>: a missing key reads as zero and is not inserted.\<close>

definition count :: "'k counter \<Rightarrow> 'k \<Rightarrow> int" where
  "count c k = (case DAList.lookup c k of None \<Rightarrow> 0 | Some v \<Rightarrow> v)"

text \<open>\<open>c[k] += 1\<close>\<close>

definition incr :: "'k counter \<Rightarrow> 'k \<Rightarrow> 'k counter" where
  "incr c k = DAList.update k (count c k + 1) c"

text \<open>\<open>acc.update(other)\<close>: for each item of \<open>other\<close> in its order, add the count.\<close>

definition counter_update :: "'k counter \<Rightarrow> 'k counter \<Rightarrow> 'k counter" where
  "counter_update acc other =
     fold (\<lambda>kv a. DAList.update (fst kv) (snd kv + count a (fst kv)) a) (items other) acc"

text \<open>
  \<open>c.most_common(n)\<close>: the items sorted by decreasing count with a stable sort, cut
  to the first \<open>n\<close>; a negative \<open>n\<close> gives the empty list.
\<close>

definition most_common :: "'k counter \<Rightarrow> int \<Rightarrow> ('k \<times> int) list" where
  "most_common c n = take (nat n) (sort_key (\<lambda>kv. - snd kv) (items c))"

text \<open>
  Equality of two counters as dictionaries: the same keys with the same counts, whatever
  the insertion order.
\<close>

definition counter_eq :: "'k counter \<Rightarrow> 'k counter \<Rightarrow> bool" where
  "counter_eq c d = (set (items c) = set (items d))"

section \<open>The statistics record\<close>

record Stats =
  triples :: int
  subjects :: "string set"
  objects :: "string set"
  relations :: "string set"
  subject_counter :: "string counter"
  object_counter :: "string counter"
  entity_counter :: "string counter"
  relation_counter :: "string counter"
  year_counter :: "int counter"
  temporal_marker_counter :: "string counter"
  temporal_records :: int
  min_date :: "date option"
  max_date :: "date option"
  min_year :: "int option"
  max_year :: "int option"

definition init_stats :: Stats where
  "init_stats =
     \<lparr> triples = 0, subjects = {}, objects = {}, relations = {},
       subject_counter = DAList.empty, object_counter = DAList.empty,
       entity_counter = DAList.empty, relation_counter = DAList.empty,
       year_counter = DAList.empty, temporal_marker_counter = DAList.empty,
       temporal_records = 0,
       min_date = None, max_date = None, min_year = None, max_year = None \<rparr>"

text \<open>
  Equality of two statistics values, field by field, with counters compared as
  dictionaries.
\<close>

definition stats_eq :: "Stats \<Rightarrow> Stats \<Rightarrow> bool" where
  "stats_eq a b =
     (triples a = triples b \<and> subjects a = subjects b \<and> objects a = objects b \<and>
      relations a = relations b \<and>
      counter_eq (subject_counter a) (subject_counter b) \<and>
      counter_eq (object_counter a) (object_counter b) \<and>
      counter_eq (entity_counter a) (entity_counter b) \<and>
      counter_eq (relation_counter a) (relation_counter b) \<and>
      counter_eq (year_counter a) (year_counter b) \<and>
      counter_eq (temporal_marker_counter a) (temporal_marker_counter b) \<and>
      temporal_records a = temporal_records b \<and>
      min_date a = min_date b \<and> max_date a = max_date b \<and>
      min_year a = min_year b \<and> max_year a = max_year b)"

definition guess_dataset_type :: "pylib \<Rightarrow> string \<Rightarrow> string" where
  "guess_dataset_type lib dataset_name =
     (let name = str_lower lib dataset_name in
      if contains ''icews'' name then ''icews''
      else if contains ''wikidata'' name then ''wikidata''
      else if contains ''yago'' name then ''yago''
      else ''generic'')"

section \<open>Merging\<close>

text \<open>
  The two range blocks of \<open>merge_stats\<close> have the same shape. Inside the guard
  \<open>other.min is not None\<close> the lower bound is replaced when the accumulator has none or
  the other one is strictly smaller, and the upper bound is replaced when the accumulator
  has none or the other one is present and strictly larger.
\<close>

definition replace_min :: "'a::linorder option \<Rightarrow> 'a \<Rightarrow> 'a option" where
  "replace_min acc_min other_min =
     (case acc_min of
        None \<Rightarrow> Some other_min
      | Some a \<Rightarrow> if other_min < a then Some other_min else Some a)"

definition replace_max :: "'a::linorder option \<Rightarrow> 'a option \<Rightarrow> 'a option" where
  "replace_max acc_max other_max =
     (case acc_max of
        None \<Rightarrow> other_max
      | Some a \<Rightarrow>
          (case other_max of
             None \<Rightarrow> Some a
           | Some b \<Rightarrow> if b > a then Some b else Some a))"

definition merge_stats :: "Stats \<Rightarrow> Stats \<Rightarrow> Stats" where
  "merge_stats acc other =
     \<lparr> triples = triples acc + triples other,
       subjects = subjects acc \<union> subjects other,
       objects = objects acc \<union> objects other,
       relations = relations acc \<union> relations other,
       subject_counter = counter_update (subject_counter acc) (subject_counter other),
       object_counter = counter_update (object_counter acc) (object_counter other),
       entity_counter = counter_update (entity_counter acc) (entity_counter other),
       relation_counter = counter_update (relation_counter acc) (relation_counter other),
       year_counter = counter_update (year_counter acc) (year_counter other),
       temporal_marker_counter =
         counter_update (temporal_marker_counter acc) (temporal_marker_counter other),
       temporal_records = temporal_records acc + temporal_records other,
       min_date =
         (case min_date other of
            None \<Rightarrow> min_date acc
          | Some d \<Rightarrow> replace_min (min_date acc) d),
       max_date =
         (case min_date other of
            None \<Rightarrow> max_date acc
          | Some d \<Rightarrow> replace_max (max_date acc) (max_date other)),
       min_year =
         (case min_year other of
            None \<Rightarrow> min_year acc
          | Some y \<Rightarrow> replace_min (min_year acc) y),
       max_year =
         (case min_year other of
            None \<Rightarrow> max_year acc
          | Some y \<Rightarrow> replace_max (max_year acc) (max_year other)) \<rparr>"

section \<open>Temporal extraction and accumulation\<close>

text \<open>The exceptions that leave the functions of the engine.\<close>

datatype error =
  ValueError | FileNotFoundError | NotADirectoryError | IsADirectoryError | SystemExit string

text \<open>
  Recording one year: bump its frequency and widen the year span, replacing a bound only
  when there is none yet or the new year is strictly beyond it.
\<close>

definition add_year :: "int \<Rightarrow> Stats \<Rightarrow> Stats" where
  "add_year year stats =
     stats\<lparr> year_counter := incr (year_counter stats) year,
            min_year := (case min_year stats of
                           None \<Rightarrow> Some year
                         | Some m \<Rightarrow> if year < m then Some year else Some m),
            max_year := (case max_year stats of
                           None \<Rightarrow> Some year
                         | Some m \<Rightarrow> if year > m then Some year else Some m) \<rparr>"

definition add_marker :: "string \<Rightarrow> Stats \<Rightarrow> Stats" where
  "add_marker marker stats =
     stats\<lparr> temporal_marker_counter := incr (temporal_marker_counter stats) marker,
            temporal_records := temporal_records stats + 1 \<rparr>"

text \<open>
  \<open>parse_temporal_tokens\<close>. The \<open>ValueError\<close> of the date parser and of \<open>int\<close> is
  caught in the first two branches, where the function then returns with what it has
  recorded so far. In the third branch \<open>int\<close> is called outside any \<open>try\<close>, so its
  \<open>ValueError\<close> leaves the function.
\<close>

definition parse_temporal_tokens ::
  "pylib \<Rightarrow> string list \<Rightarrow> string \<Rightarrow> Stats \<Rightarrow> error + Stats" where
  "parse_temporal_tokens lib tokens dataset_type stats =
     (if dataset_type = ''icews'' then
        (if length tokens \<ge> 4 then
           (case strptime_ymd lib (tokens ! 3) of
              None \<Rightarrow> Inr stats
            | Some dt \<Rightarrow>
                Inr (stats\<lparr> year_counter := incr (year_counter stats) (date_year dt),
                       min_date := (case min_date stats of
                                      None \<Rightarrow> Some dt
                                    | Some m \<Rightarrow> if dt < m then Some dt else Some m),
                       max_date := (case max_date stats of
                                      None \<Rightarrow> Some dt
                                    | Some m \<Rightarrow> if dt > m then Some dt else Some m) \<rparr>))
         else Inr stats)
      else if dataset_type = ''wikidata'' then
        (if length tokens \<ge> 5 then
           (let marker = tokens ! 3;
                year_token = strip lib (tokens ! 4);
                stats1 = add_marker marker stats
            in if year_token \<noteq> [] then
                 (case int_of_str lib year_token of
                    None \<Rightarrow> Inr stats1
                  | Some year \<Rightarrow> Inr (add_year year stats1))
               else Inr stats1)
         else Inr stats)
      else if dataset_type = ''yago'' then
        (if length tokens \<ge> 5 then
           (let marker = strip_chars [CHR ''<'', CHR ''>'', dquote] (tokens ! 3);
                date_token = strip_chars [dquote] (tokens ! 4);
                stats1 = add_marker marker stats;
                digits = filter (str_isdigit lib) date_token
            in if length digits \<ge> 4 then
                 (case int_of_str lib (take 4 digits) of
                    None \<Rightarrow> Inl ValueError
                  | Some year \<Rightarrow> Inr (add_year year stats1))
               else Inr stats1)
         else Inr stats)
      else Inr stats)"

text \<open>The counts every accepted line contributes, before the temporal part.\<close>

definition add_triple :: "string \<Rightarrow> string \<Rightarrow> string \<Rightarrow> Stats \<Rightarrow> Stats" where
  "add_triple subj rel obj stats =
     stats\<lparr> triples := triples stats + 1,
            subjects := insert subj (subjects stats),
            objects := insert obj (objects stats),
            relations := insert rel (relations stats),
            subject_counter := incr (subject_counter stats) subj,
            object_counter := incr (object_counter stats) obj,
            entity_counter := incr (incr (entity_counter stats) subj) obj,
            relation_counter := incr (relation_counter stats) rel \<rparr>"

text \<open>One iteration of the loop in \<open>process_file\<close>.\<close>

definition process_line :: "pylib \<Rightarrow> string \<Rightarrow> string \<Rightarrow> Stats \<Rightarrow> error + Stats" where
  "process_line lib dataset_type raw_line stats =
     (let line = strip lib raw_line in
      if line = [] then Inr stats
      else (let tokens = split_on tab line in
            if length tokens < 3 then Inr stats
            else parse_temporal_tokens lib tokens dataset_type
                   (add_triple (tokens ! 0) (tokens ! 1) (tokens ! 2) stats)))"

text \<open>The loop over the lines: an exception ends it, and the statistics are lost.\<close>

fun process_lines :: "pylib \<Rightarrow> string \<Rightarrow> string list \<Rightarrow> Stats \<Rightarrow> error + Stats" where
  "process_lines lib dataset_type [] stats = Inr stats"
| "process_lines lib dataset_type (raw_line # rest) stats =
     (case process_line lib dataset_type raw_line stats of
        Inl e \<Rightarrow> Inl e
      | Inr stats' \<Rightarrow> process_lines lib dataset_type rest stats')"

text \<open>\<open>process_file\<close> on the lines of an opened file.\<close>

definition process_file :: "pylib \<Rightarrow> string list \<Rightarrow> string \<Rightarrow> error + Stats" where
  "process_file lib raw_lines dataset_type = process_lines lib dataset_type raw_lines init_stats"

section \<open>Summaries\<close>

record Summary =
  sm_triples :: int
  sm_unique_subjects :: nat
  sm_unique_objects :: nat
  sm_unique_relations :: nat
  sm_top_entities :: "(string \<times> int) list"
  sm_top_subjects :: "(string \<times> int) list"
  sm_top_objects :: "(string \<times> int) list"
  sm_top_relations :: "(string \<times> int) list"
  sm_top_years :: "(int \<times> int) list"
  sm_temporal_markers :: "(string \<times> int) list"
  sm_temporal_records :: int
  sm_min_date :: "string option"
  sm_max_date :: "string option"
  sm_min_year :: "int option"
  sm_max_year :: "int option"

definition summarize :: "Stats \<Rightarrow> int \<Rightarrow> Summary" where
  "summarize stats top_n =
     \<lparr> sm_triples = triples stats,
       sm_unique_subjects = card (subjects stats),
       sm_unique_objects = card (objects stats),
       sm_unique_relations = card (relations stats),
       sm_top_entities = most_common (entity_counter stats) top_n,
       sm_top_subjects = most_common (subject_counter stats) top_n,
       sm_top_objects = most_common (object_counter stats) top_n,
       sm_top_relations = most_common (relation_counter stats) top_n,
       sm_top_years = most_common (year_counter stats) top_n,
       sm_temporal_markers = most_common (temporal_marker_counter stats) top_n,
       sm_temporal_records = temporal_records stats,
       sm_min_date = map_option isoformat (min_date stats),
       sm_max_date = map_option isoformat (max_date stats),
       sm_min_year = min_year stats,
       sm_max_year = max_year stats \<rparr>"

section \<open>The orchestrator over a file system\<close>

text \<open>
  The file system is a partial map from the paths the program is started with to what
  is there: a file with its lines, or a directory with its named entries.
\<close>

datatype fsnode = File "string list" | Dir "(string \<times> fsnode) list"

text \<open>\<open>os.listdir(path)\<close>\<close>

definition listdir :: "fsnode option \<Rightarrow> error + string list" where
  "listdir node =
     (case node of
        None \<Rightarrow> Inl FileNotFoundError
      | Some (File ls) \<Rightarrow> Inl NotADirectoryError
      | Some (Dir es) \<Rightarrow> Inr (map fst es))"

text \<open>\<open>os.path.isdir(os.path.join(base_dir, name))\<close> for a name of the listing.\<close>

definition isdir_entry :: "(string \<times> fsnode) list \<Rightarrow> string \<Rightarrow> bool" where
  "isdir_entry es name = (case map_of es name of Some (Dir sub) \<Rightarrow> True | _ \<Rightarrow> False)"

definition entries_of :: "fsnode option \<Rightarrow> (string \<times> fsnode) list" where
  "entries_of node = (case node of Some (Dir es) \<Rightarrow> es | _ \<Rightarrow> [])"

text \<open>An absent or empty \<open>include\<close> is falsy and selects every directory.\<close>

definition discover_datasets ::
  "pylib \<Rightarrow> fsnode option \<Rightarrow> string list option \<Rightarrow> error + string list" where
  "discover_datasets lib base include =
     (case listdir base of
        Inl e \<Rightarrow> Inl e
      | Inr names \<Rightarrow>
          (let entries = sort (filter (isdir_entry (entries_of base)) names) in
           case include of
             None \<Rightarrow> Inr entries
           | Some inc \<Rightarrow>
               if inc = [] then Inr entries
               else Inr (filter (\<lambda>name. str_lower lib name \<in> set (map (str_lower lib) inc))
                           entries)))"

text \<open>
  The loop over the files of one dataset directory. The state is the aggregate, the
  per-file summaries and the log of the files opened so far; an exception keeps the log.
\<close>

fun analyze_files ::
  "pylib \<Rightarrow> (string \<times> fsnode) list \<Rightarrow> string \<Rightarrow> string \<Rightarrow> int \<Rightarrow> bool \<Rightarrow> string list \<Rightarrow>
   Stats \<Rightarrow> (string \<times> Summary) list \<Rightarrow> (string \<times> string) list \<Rightarrow>
   (string \<times> string) list \<times> (error + Stats \<times> (string \<times> Summary) list)" where
  "analyze_files lib es dataset dataset_type top_n per_file [] aggregate file_summaries log =
     (log, Inr (aggregate, file_summaries))"
| "analyze_files lib es dataset dataset_type top_n per_file (filename # rest) aggregate
     file_summaries log =
     (if \<not> endswith filename ''.txt'' then
        analyze_files lib es dataset dataset_type top_n per_file rest aggregate file_summaries log
      else
        (case map_of es filename of
           None \<Rightarrow> (log, Inl FileNotFoundError)
         | Some (Dir sub) \<Rightarrow> (log, Inl IsADirectoryError)
         | Some (File raw_lines) \<Rightarrow>
             (case process_file lib raw_lines dataset_type of
                Inl e \<Rightarrow> (log @ [(dataset, filename)], Inl e)
              | Inr stats \<Rightarrow>
                  analyze_files lib es dataset dataset_type top_n per_file rest
                    (merge_stats aggregate stats)
                    (if per_file then AList.update filename (summarize stats top_n) file_summaries
                     else file_summaries)
                    (log @ [(dataset, filename)]))))"

text \<open>The loop over the selected datasets.\<close>

fun analyze_datasets ::
  "pylib \<Rightarrow> (string \<times> fsnode) list \<Rightarrow> int \<Rightarrow> bool \<Rightarrow> string list \<Rightarrow>
   (string \<times> Summary \<times> (string \<times> Summary) list) list \<Rightarrow> (string \<times> string) list \<Rightarrow>
   (string \<times> string) list \<times>
   (error + (string \<times> Summary \<times> (string \<times> Summary) list) list)" where
  "analyze_datasets lib base_es top_n per_file [] results log = (log, Inr results)"
| "analyze_datasets lib base_es top_n per_file (dataset # rest) results log =
     (case listdir (map_of base_es dataset) of
        Inl e \<Rightarrow> (log, Inl e)
      | Inr names \<Rightarrow>
          (case analyze_files lib (entries_of (map_of base_es dataset)) dataset
                  (guess_dataset_type lib dataset) top_n per_file (sort names) init_stats [] log of
             (log', Inl e) \<Rightarrow> (log', Inl e)
           | (log', Inr (aggregate, file_summaries)) \<Rightarrow>
               analyze_datasets lib base_es top_n per_file rest
                 (AList.update dataset (summarize aggregate top_n, file_summaries) results)
                 log'))"

text \<open>
  \<open>analyze\<close>: the log of the dataset files opened, and either the exception that ended
  the run or the results.
\<close>

definition analyze ::
  "pylib \<Rightarrow> (string \<Rightarrow> fsnode option) \<Rightarrow> string \<Rightarrow> int \<Rightarrow> string list option \<Rightarrow> bool \<Rightarrow>
   (string \<times> string) list \<times>
   (error + (string \<times> Summary \<times> (string \<times> Summary) list) list)" where
  "analyze lib fs base_dir top_n include per_file =
     (case discover_datasets lib (fs base_dir) include of
        Inl e \<Rightarrow> ([], Inl e)
      | Inr datasets \<Rightarrow>
          if datasets = []
          then ([], Inl (SystemExit (''No dataset folders found under '' @ base_dir @ ''.'')))
          else analyze_datasets lib (entries_of (fs base_dir)) top_n per_file datasets [] [])"

section \<open>The library on eight-bit text\<close>

text \<open>
  One library, used for the examples: the five functions on the code points 0 to 255,
  which HOL characters stand for. In this range \<open>str.isspace\<close> holds of 9 to 13, 28 to
  32, 133 and 160; \<open>str.isdigit\<close> of \<open>0\<close> to \<open>9\<close> and of the superscripts 178, 179
  and 185, which \<open>int\<close> does not accept; \<open>str.lower\<close> adds 32 to \<open>A\<close> to \<open>Z\<close> and
  to 192 to 222 except 215.
\<close>

definition isspace :: "char \<Rightarrow> bool" where
  "isspace c =
     (let n = (of_char c :: nat) in
      (9 \<le> n \<and> n \<le> 13) \<or> (28 \<le> n \<and> n \<le> 32) \<or> n = 133 \<or> n = 160)"

definition ascii_digit :: "char \<Rightarrow> bool" where
  "ascii_digit c = (let n = (of_char c :: nat) in 48 \<le> n \<and> n \<le> 57)"

definition isdigit :: "char \<Rightarrow> bool" where
  "isdigit c = (let n = (of_char c :: nat) in ascii_digit c \<or> n = 178 \<or> n = 179 \<or> n = 185)"

definition lower_char :: "char \<Rightarrow> char" where
  "lower_char c =
     (let n = (of_char c :: nat) in
      if (65 \<le> n \<and> n \<le> 90) \<or> (192 \<le> n \<and> n \<le> 222 \<and> n \<noteq> 215) then char_of (n + 32) else c)"

definition lower :: "string \<Rightarrow> string" where
  "lower s = map lower_char s"

definition digit_val :: "char \<Rightarrow> nat" where
  "digit_val c = of_char c - 48"

definition nat_of_digits :: "string \<Rightarrow> nat" where
  "nat_of_digits s = foldl (\<lambda>n c. 10 * n + digit_val c) 0 s"

text \<open>
  \<open>int(s)\<close> in base ten. Whitespace above the ASCII range is read as a blank; then
  the blanks of the C locale (9 to 13 and 32) are skipped at both ends, one sign is allowed,
  and the decimal digits may be grouped by single underscores. More than 4300 digits are
  refused, which is the default limit of the interpreter.
\<close>

definition c_isspace :: "char \<Rightarrow> bool" where
  "c_isspace c = (let n = (of_char c :: nat) in (9 \<le> n \<and> n \<le> 13) \<or> n = 32)"

definition int_text :: "string \<Rightarrow> string" where
  "int_text s = map (\<lambda>c. if 127 \<le> (of_char c :: nat) \<and> isspace c then CHR '' '' else c) s"

definition int_body :: "string \<Rightarrow> nat option" where
  "int_body s =
     (let gs = split_on (CHR ''_'') s in
      if list_all (\<lambda>g. g \<noteq> [] \<and> list_all ascii_digit g) gs \<and> length (concat gs) \<le> 4300
      then Some (nat_of_digits (concat gs)) else None)"

definition py_int :: "string \<Rightarrow> int option" where
  "py_int s =
     (case strip_with c_isspace (int_text s) of
        [] \<Rightarrow> None
      | c # cs \<Rightarrow>
          if c = CHR ''-'' then map_option (\<lambda>n. - int n) (int_body cs)
          else if c = CHR ''+'' then map_option int (int_body cs)
          else map_option int (int_body (c # cs)))"

definition is_leap :: "nat \<Rightarrow> bool" where
  "is_leap y = (y mod 4 = 0 \<and> (y mod 100 \<noteq> 0 \<or> y mod 400 = 0))"

definition days_in_month :: "nat \<Rightarrow> nat \<Rightarrow> nat" where
  "days_in_month y m =
     (if m = 2 then (if is_leap y then 29 else 28)
      else if m = 4 \<or> m = 6 \<or> m = 9 \<or> m = 11 then 30 else 31)"

definition make_date :: "nat \<Rightarrow> nat \<Rightarrow> nat \<Rightarrow> date option" where
  "make_date y m d =
     (if 1 \<le> y \<and> y \<le> 9999 \<and> 1 \<le> m \<and> m \<le> 12 \<and> 1 \<le> d \<and> d \<le> days_in_month y m
      then Some (y, m, d) else None)"

text \<open>
  \<open>datetime.strptime(s, "%Y-%m-%d")\<close>. The library matches the pattern
  \<open>\d\d\d\d-(1[0-2]|0[1-9]|[1-9])-(3[01]|[12]\d|0[1-9]|[1-9]| [1-9])\<close> at the start of the
  string, rejects unconverted trailing data and then builds the date, which checks the
  ranges. Each alternation is followed by a fixed character or by the end of the pattern,
  so the first alternative that matches is the one the match keeps.
\<close>

definition nonzero_digit :: "char \<Rightarrow> bool" where
  "nonzero_digit c = (ascii_digit c \<and> c \<noteq> CHR ''0'')"

fun match_month :: "string \<Rightarrow> (nat \<times> string) option" where
  "match_month (c1 # c2 # r) =
     (if c1 = CHR ''1'' \<and> (c2 = CHR ''0'' \<or> c2 = CHR ''1'' \<or> c2 = CHR ''2'')
        then Some (10 + digit_val c2, r)
      else if c1 = CHR ''0'' \<and> nonzero_digit c2 then Some (digit_val c2, r)
      else if nonzero_digit c1 then Some (digit_val c1, c2 # r)
      else None)"
| "match_month [c1] = (if nonzero_digit c1 then Some (digit_val c1, []) else None)"
| "match_month [] = None"

fun match_day :: "string \<Rightarrow> (nat \<times> string) option" where
  "match_day (c1 # c2 # r) =
     (if c1 = CHR ''3'' \<and> (c2 = CHR ''0'' \<or> c2 = CHR ''1'') then Some (30 + digit_val c2, r)
      else if (c1 = CHR ''1'' \<or> c1 = CHR ''2'') \<and> ascii_digit c2
        then Some (10 * digit_val c1 + digit_val c2, r)
      else if c1 = CHR ''0'' \<and> nonzero_digit c2 then Some (digit_val c2, r)
      else if nonzero_digit c1 then Some (digit_val c1, c2 # r)
      else if c1 = CHR '' '' \<and> nonzero_digit c2 then Some (digit_val c2, r)
      else None)"
| "match_day [c1] = (if nonzero_digit c1 then Some (digit_val c1, []) else None)"
| "match_day [] = None"

definition strptime :: "string \<Rightarrow> date option" where
  "strptime s =
     (if 5 \<le> length s \<and> list_all ascii_digit (take 4 s) \<and> s ! 4 = CHR ''-'' then
        (case match_month (drop 5 s) of
           None \<Rightarrow> None
         | Some (m, r) \<Rightarrow>
             (case r of
                [] \<Rightarrow> None
              | c # r' \<Rightarrow>
                  if c \<noteq> CHR ''-'' then None
                  else (case match_day r' of
                          None \<Rightarrow> None
                        | Some (d, r'') \<Rightarrow>
                            if r'' \<noteq> [] then None
                            else make_date (nat_of_digits (take 4 s)) m d)))
      else None)"

definition latin1 :: pylib where
  "latin1 =
     \<lparr> str_isspace = isspace, str_isdigit = isdigit, str_lower = lower,
       int_of_str = py_int, strptime_ymd = strptime \<rparr>"

section \<open>Specification-level notions\<close>

text \<open>
  The merge of two optional bounds as the specification words it: an absent side yields
  the other side, two present sides are combined by the given operation.
\<close>

fun spec_extremum :: "('a \<Rightarrow> 'a \<Rightarrow> 'a) \<Rightarrow> 'a option \<Rightarrow> 'a option \<Rightarrow> 'a option" where
  "spec_extremum f None y = y"
| "spec_extremum f (Some a) None = Some a"
| "spec_extremum f (Some a) (Some b) = Some (f a b)"

text \<open>
  An upper bound is present only together with its lower bound. The accumulator sets both
  bounds of a range at once, so every value it produces is of this kind.
\<close>

definition bounds_paired :: "Stats \<Rightarrow> bool" where
  "bounds_paired s =
     ((min_date s = None \<longrightarrow> max_date s = None) \<and> (min_year s = None \<longrightarrow> max_year s = None))"

text \<open>
  The entity invariant of the data model: the entity frequency is the sum of the subject
  and object frequencies, for every entity.
\<close>

definition entity_inv :: "Stats \<Rightarrow> bool" where
  "entity_inv s =
     (\<forall>e. count (entity_counter s) e = count (subject_counter s) e + count (object_counter s) e)"

text \<open>
  What the specification asks of a top-N ranking \<open>r\<close> of the items \<open>its\<close>: the
  length, entries taken from the items with distinct keys, decreasing frequency, ties in
  insertion order (the entries of each frequency are an initial part of the items of that
  frequency), and nothing left out that is more frequent than a listed entry.
\<close>

definition ranking :: "('k \<times> int) list \<Rightarrow> nat \<Rightarrow> ('k \<times> int) list \<Rightarrow> bool" where
  "ranking its n r =
     (length r = min n (length its) \<and>
      set r \<subseteq> set its \<and>
      distinct (map fst r) \<and>
      sorted_wrt (\<lambda>a b. snd b \<le> snd a) r \<and>
      (\<forall>v \<in> snd ` set its.
         prefix (filter (\<lambda>kv. snd kv = v) r) (filter (\<lambda>kv. snd kv = v) its)) \<and>
      (\<forall>x \<in> set r. \<forall>y \<in> set its - set r. snd y \<le> snd x))"

text \<open>
  A directory entry is selected when it is a subdirectory and passes the case-insensitive
  name filter; an absent or empty filter lets every subdirectory pass.
\<close>

definition selected ::
  "pylib \<Rightarrow> (string \<times> fsnode) list \<Rightarrow> string list option \<Rightarrow> string \<Rightarrow> bool" where
  "selected lib es include name =
     (isdir_entry es name \<and>
      (case include of
         None \<Rightarrow> True
       | Some inc \<Rightarrow> inc = [] \<or> str_lower lib name \<in> set (map (str_lower lib) inc)))"

section \<open>Properties of counters\<close>

lemma count_update: "count (DAList.update k v a) k' = (if k' = k then v else count a k')"
  by (simp add: count_def)

lemma lookup_fold_update:
  "distinct (map fst xs) \<Longrightarrow>
   DAList.lookup (fold (\<lambda>kv a. DAList.update (fst kv) (snd kv + count a (fst kv)) a) xs a) k =
     (case map_of xs k of None \<Rightarrow> DAList.lookup a k | Some v \<Rightarrow> Some (v + count a k))"
proof (induction xs arbitrary: a)
  case Nil
  then show ?case by simp
next
  case (Cons x xs)
  obtain k' v' where x: "x = (k', v')" by (cases x)
  from Cons.prems have d: "distinct (map fst xs)" and nk: "k' \<notin> fst ` set xs"
    by (auto simp: x)
  have none: "map_of xs k' = None"
    using nk by (simp add: map_of_eq_None_iff)
  let ?a' = "DAList.update k' (v' + count a k') a"
  have step: "DAList.lookup (fold (\<lambda>kv a. DAList.update (fst kv) (snd kv + count a (fst kv)) a) (x # xs) a) k =
     (case map_of xs k of None \<Rightarrow> DAList.lookup ?a' k | Some v \<Rightarrow> Some (v + count ?a' k))"
    using Cons.IH [OF d, of ?a'] by (simp add: x)
  show ?case
  proof (cases "k = k'")
    case True
    then show ?thesis
      unfolding step using none by (simp add: x count_update)
  next
    case False
    then show ?thesis
      unfolding step by (auto simp: x count_update split: option.splits)
  qed
qed

lemma lookup_counter_update:
  "DAList.lookup (counter_update a b) k =
     (if k \<in> dom (DAList.lookup a) \<union> dom (DAList.lookup b)
      then Some (count a k + count b k) else None)"
proof -
  have d: "distinct (map fst (items b))" by (simp add: items_def)
  have m: "map_of (items b) = DAList.lookup b" by (simp add: items_def DAList.lookup.rep_eq)
  show ?thesis
    unfolding counter_update_def lookup_fold_update [OF d] m
    by (auto simp: count_def dom_def split: option.splits)
qed

lemma dom_counter_update:
  "dom (DAList.lookup (counter_update a b)) = dom (DAList.lookup a) \<union> dom (DAList.lookup b)"
  by (auto simp: lookup_counter_update dom_def split: if_splits)

lemma count_counter_update: "count (counter_update a b) k = count a k + count b k"
  by (auto simp: count_def lookup_counter_update dom_def split: option.splits)

lemma counter_eq_iff: "counter_eq c d \<longleftrightarrow> DAList.lookup c = DAList.lookup d"
  unfolding counter_eq_def items_def DAList.lookup.rep_eq
  by (rule map_of_inject_set [symmetric]) simp_all

lemma counter_update_commute: "counter_eq (counter_update a b) (counter_update b a)"
  unfolding counter_eq_iff
  by (rule ext) (simp add: lookup_counter_update Un_commute add.commute)

lemma counter_update_assoc:
  "counter_eq (counter_update (counter_update a b) c) (counter_update a (counter_update b c))"
  unfolding counter_eq_iff
  by (rule ext) (simp add: lookup_counter_update dom_counter_update count_counter_update Un_assoc add.assoc)

section \<open>Properties of merging\<close>

lemma spec_extremum_None_right [simp]: "spec_extremum f x None = x"
  by (cases x) simp_all

lemma spec_extremum_eq_None [simp]: "spec_extremum f x y = None \<longleftrightarrow> x = None \<and> y = None"
  by (cases x; cases y) simp_all

lemma spec_min_commute: "spec_extremum min x y = spec_extremum min y (x :: 'a::linorder option)"
  by (cases x; cases y) (simp_all add: min.commute)

lemma spec_max_commute: "spec_extremum max x y = spec_extremum max y (x :: 'a::linorder option)"
  by (cases x; cases y) (simp_all add: max.commute)

lemma spec_min_assoc:
  "spec_extremum min (spec_extremum min x y) z =
   spec_extremum min x (spec_extremum min y (z :: 'a::linorder option))"
  by (cases x; cases y; cases z) (simp_all add: min.assoc)

lemma spec_max_assoc:
  "spec_extremum max (spec_extremum max x y) z =
   spec_extremum max x (spec_extremum max y (z :: 'a::linorder option))"
  by (cases x; cases y; cases z) (simp_all add: max.assoc)

lemma replace_min_spec: "replace_min x b = spec_extremum min x (Some b)"
  by (cases x) (auto simp: replace_min_def min_def)

lemma replace_max_spec: "replace_max x y = spec_extremum max x y"
  by (cases x; cases y) (auto simp: replace_max_def max_def)

lemma merge_min_date: "min_date (merge_stats a b) = spec_extremum min (min_date a) (min_date b)"
  by (cases "min_date b") (simp_all add: merge_stats_def replace_min_spec)

lemma merge_min_year: "min_year (merge_stats a b) = spec_extremum min (min_year a) (min_year b)"
  by (cases "min_year b") (simp_all add: merge_stats_def replace_min_spec)

lemma merge_max_date:
  "(min_date b = None \<longrightarrow> max_date b = None) \<Longrightarrow>
   max_date (merge_stats a b) = spec_extremum max (max_date a) (max_date b)"
  by (cases "min_date b") (simp_all add: merge_stats_def replace_max_spec)

lemma merge_max_year:
  "(min_year b = None \<longrightarrow> max_year b = None) \<Longrightarrow>
   max_year (merge_stats a b) = spec_extremum max (max_year a) (max_year b)"
  by (cases "min_year b") (simp_all add: merge_stats_def replace_max_spec)

lemma bounds_paired_merge:
  "bounds_paired a \<Longrightarrow> bounds_paired b \<Longrightarrow> bounds_paired (merge_stats a b)"
  by (simp add: bounds_paired_def merge_min_date merge_min_year merge_max_date merge_max_year)

lemma merge_simps:
  "triples (merge_stats a b) = triples a + triples b"
  "subjects (merge_stats a b) = subjects a \<union> subjects b"
  "objects (merge_stats a b) = objects a \<union> objects b"
  "relations (merge_stats a b) = relations a \<union> relations b"
  "subject_counter (merge_stats a b) = counter_update (subject_counter a) (subject_counter b)"
  "object_counter (merge_stats a b) = counter_update (object_counter a) (object_counter b)"
  "entity_counter (merge_stats a b) = counter_update (entity_counter a) (entity_counter b)"
  "relation_counter (merge_stats a b) = counter_update (relation_counter a) (relation_counter b)"
  "year_counter (merge_stats a b) = counter_update (year_counter a) (year_counter b)"
  "temporal_marker_counter (merge_stats a b) =
     counter_update (temporal_marker_counter a) (temporal_marker_counter b)"
  "temporal_records (merge_stats a b) = temporal_records a + temporal_records b"
  by (simp_all add: merge_stats_def)

text \<open>
  C1, as amended. For all statistics values in which no upper bound is present without
  its lower bound, merging commutes and associates: counts, set unions, frequency sums
  and the date and year extrema agree, also when a side has no temporal data at all.
  Equality compares the counters as dictionaries.
\<close>

theorem merge_stats_commute_assoc:
  assumes "bounds_paired A" and "bounds_paired B" and "bounds_paired C"
  shows "stats_eq (merge_stats A B) (merge_stats B A) \<and>
         stats_eq (merge_stats (merge_stats A B) C) (merge_stats A (merge_stats B C))"
proof
  have pa: "min_date A = None \<longrightarrow> max_date A = None" "min_year A = None \<longrightarrow> max_year A = None"
    and pb: "min_date B = None \<longrightarrow> max_date B = None" "min_year B = None \<longrightarrow> max_year B = None"
    and pc: "min_date C = None \<longrightarrow> max_date C = None" "min_year C = None \<longrightarrow> max_year C = None"
    using assms by (simp_all add: bounds_paired_def)
  have pab: "min_date (merge_stats A B) = None \<longrightarrow> max_date (merge_stats A B) = None"
       "min_year (merge_stats A B) = None \<longrightarrow> max_year (merge_stats A B) = None"
    and pbc: "min_date (merge_stats B C) = None \<longrightarrow> max_date (merge_stats B C) = None"
       "min_year (merge_stats B C) = None \<longrightarrow> max_year (merge_stats B C) = None"
    using bounds_paired_merge [OF assms(1,2)] bounds_paired_merge [OF assms(2,3)]
    by (simp_all add: bounds_paired_def)
  show "stats_eq (merge_stats A B) (merge_stats B A)"
    unfolding stats_eq_def merge_simps merge_min_date merge_min_year
      merge_max_date [OF pa(1)] merge_max_date [OF pb(1)]
      merge_max_year [OF pa(2)] merge_max_year [OF pb(2)]
    by (simp add: counter_update_commute add.commute Un_commute
        spec_min_commute [of "min_date A"] spec_max_commute [of "max_date A"]
        spec_min_commute [of "min_year A"] spec_max_commute [of "max_year A"])
  show "stats_eq (merge_stats (merge_stats A B) C) (merge_stats A (merge_stats B C))"
    unfolding stats_eq_def merge_simps merge_min_date merge_min_year
      merge_max_date [OF pc(1)] merge_max_date [OF pbc(1)] merge_max_date [OF pb(1)]
      merge_max_year [OF pc(2)] merge_max_year [OF pbc(2)] merge_max_year [OF pb(2)]
    by (simp add: counter_update_assoc add.assoc Un_assoc
        spec_min_assoc spec_max_assoc)
qed

theorem merge_stats_commute_assoc_witness:
  "bounds_paired (init_stats\<lparr>triples := 1, min_date := Some (2010, 5, 1), max_date := Some (2010, 5, 1)\<rparr>) \<and>
   bounds_paired init_stats \<and>
   bounds_paired (init_stats\<lparr>triples := 2, min_year := Some 1990, max_year := Some 1995\<rparr>) \<and>
   stats_eq
     (merge_stats (init_stats\<lparr>triples := 1, min_date := Some (2010, 5, 1), max_date := Some (2010, 5, 1)\<rparr>) init_stats)
     (merge_stats init_stats (init_stats\<lparr>triples := 1, min_date := Some (2010, 5, 1), max_date := Some (2010, 5, 1)\<rparr>)) \<and>
   stats_eq
     (merge_stats
        (merge_stats (init_stats\<lparr>triples := 1, min_date := Some (2010, 5, 1), max_date := Some (2010, 5, 1)\<rparr>) init_stats)
        (init_stats\<lparr>triples := 2, min_year := Some 1990, max_year := Some 1995\<rparr>))
     (merge_stats (init_stats\<lparr>triples := 1, min_date := Some (2010, 5, 1), max_date := Some (2010, 5, 1)\<rparr>)
        (merge_stats init_stats (init_stats\<lparr>triples := 2, min_year := Some 1990, max_year := Some 1995\<rparr>)))"
proof -
  have a: "bounds_paired (init_stats\<lparr>triples := 1, min_date := Some (2010, 5, 1), max_date := Some (2010, 5, 1)\<rparr>)"
    by (simp add: bounds_paired_def init_stats_def)
  have b: "bounds_paired init_stats"
    by (simp add: bounds_paired_def init_stats_def)
  have c: "bounds_paired (init_stats\<lparr>triples := 2, min_year := Some 1990, max_year := Some 1995\<rparr>)"
    by (simp add: bounds_paired_def init_stats_def)
  show ?thesis
    using a b c merge_stats_commute_assoc [OF a b c] by simp
qed

text \<open>
  C1 as stated fails: a value with an upper date bound and no lower one keeps that bound
  as the accumulator and loses it as the other argument.
\<close>

theorem merge_stats_commute_counterexample:
  "\<not> stats_eq (merge_stats (init_stats\<lparr>max_date := Some (2010, 5, 1)\<rparr>) init_stats)
       (merge_stats init_stats (init_stats\<lparr>max_date := Some (2010, 5, 1)\<rparr>))"
  by (simp add: stats_eq_def merge_stats_def init_stats_def)

text \<open>
  C2, as amended. When the merged-in value has no upper bound without its lower bound,
  each of the four extrema of the result is the other side's value where one side is
  absent, and the pointwise minimum (for the lower bounds) or maximum (for the upper
  bounds) where both are present. Merging a value with a range into an aggregate without
  one therefore adopts both bounds.
\<close>

theorem merge_stats_extrema:
  assumes "bounds_paired other"
  shows "min_date (merge_stats acc other) = spec_extremum min (min_date acc) (min_date other) \<and>
         max_date (merge_stats acc other) = spec_extremum max (max_date acc) (max_date other) \<and>
         min_year (merge_stats acc other) = spec_extremum min (min_year acc) (min_year other) \<and>
         max_year (merge_stats acc other) = spec_extremum max (max_year acc) (max_year other) \<and>
         (min_date acc = None \<and> max_date acc = None \<longrightarrow>
            min_date (merge_stats acc other) = min_date other \<and>
            max_date (merge_stats acc other) = max_date other) \<and>
         (min_year acc = None \<and> max_year acc = None \<longrightarrow>
            min_year (merge_stats acc other) = min_year other \<and>
            max_year (merge_stats acc other) = max_year other)"
  using assms
  by (simp add: bounds_paired_def merge_min_date merge_min_year merge_max_date merge_max_year)

theorem merge_stats_extrema_witness:
  "bounds_paired (init_stats\<lparr>min_date := Some (2010, 5, 1), max_date := Some (2011, 1, 2)\<rparr>) \<and>
   min_date (merge_stats init_stats
      (init_stats\<lparr>min_date := Some (2010, 5, 1), max_date := Some (2011, 1, 2)\<rparr>)) = Some (2010, 5, 1) \<and>
   max_date (merge_stats init_stats
      (init_stats\<lparr>min_date := Some (2010, 5, 1), max_date := Some (2011, 1, 2)\<rparr>)) = Some (2011, 1, 2)"
proof -
  have p: "bounds_paired (init_stats\<lparr>min_date := Some (2010, 5, 1), max_date := Some (2011, 1, 2)\<rparr>)"
    by (simp add: bounds_paired_def init_stats_def)
  show ?thesis
    using p merge_stats_extrema [OF p, of init_stats] by (simp add: init_stats_def)
qed

text \<open>
  C2 as stated fails: the upper bounds are not merged independently of the lower ones. A
  merged-in value with an upper year bound and no lower one is ignored, although the
  aggregate has no upper bound of its own.
\<close>

theorem merge_stats_extrema_counterexample:
  "max_year init_stats = None \<and>
   max_year (init_stats\<lparr>max_year := Some 2000\<rparr>) = Some 2000 \<and>
   max_year (merge_stats init_stats (init_stats\<lparr>max_year := Some 2000\<rparr>)) = None"
  by (simp add: merge_stats_def init_stats_def)

section \<open>Properties of the extractor\<close>

lemma count_empty [simp]: "count DAList.empty k = 0"
  by (simp add: count_def)

lemma count_incr: "count (incr c k) k' = count c k' + (if k' = k then 1 else 0)"
  by (simp add: incr_def count_update)

lemma add_triple_simps:
  "triples (add_triple s r ob st) = triples st + 1"
  "subjects (add_triple s r ob st) = insert s (subjects st)"
  "objects (add_triple s r ob st) = insert ob (objects st)"
  "relations (add_triple s r ob st) = insert r (relations st)"
  "subject_counter (add_triple s r ob st) = incr (subject_counter st) s"
  "object_counter (add_triple s r ob st) = incr (object_counter st) ob"
  "entity_counter (add_triple s r ob st) = incr (incr (entity_counter st) s) ob"
  "relation_counter (add_triple s r ob st) = incr (relation_counter st) r"
  "year_counter (add_triple s r ob st) = year_counter st"
  "temporal_marker_counter (add_triple s r ob st) = temporal_marker_counter st"
  "temporal_records (add_triple s r ob st) = temporal_records st"
  "min_date (add_triple s r ob st) = min_date st"
  "max_date (add_triple s r ob st) = max_date st"
  "min_year (add_triple s r ob st) = min_year st"
  "max_year (add_triple s r ob st) = max_year st"
  by (simp_all add: add_triple_def)

lemma add_year_frame:
  "triples (add_year y st) = triples st"
  "subjects (add_year y st) = subjects st"
  "objects (add_year y st) = objects st"
  "relations (add_year y st) = relations st"
  "subject_counter (add_year y st) = subject_counter st"
  "object_counter (add_year y st) = object_counter st"
  "entity_counter (add_year y st) = entity_counter st"
  "relation_counter (add_year y st) = relation_counter st"
  "temporal_marker_counter (add_year y st) = temporal_marker_counter st"
  "temporal_records (add_year y st) = temporal_records st"
  "min_date (add_year y st) = min_date st"
  "max_date (add_year y st) = max_date st"
  "year_counter (add_year y st) = incr (year_counter st) y"
  by (simp_all add: add_year_def)

lemma add_marker_frame:
  "triples (add_marker m st) = triples st"
  "subjects (add_marker m st) = subjects st"
  "objects (add_marker m st) = objects st"
  "relations (add_marker m st) = relations st"
  "subject_counter (add_marker m st) = subject_counter st"
  "object_counter (add_marker m st) = object_counter st"
  "entity_counter (add_marker m st) = entity_counter st"
  "relation_counter (add_marker m st) = relation_counter st"
  "year_counter (add_marker m st) = year_counter st"
  "min_date (add_marker m st) = min_date st"
  "max_date (add_marker m st) = max_date st"
  "min_year (add_marker m st) = min_year st"
  "max_year (add_marker m st) = max_year st"
  "temporal_marker_counter (add_marker m st) = incr (temporal_marker_counter st) m"
  "temporal_records (add_marker m st) = temporal_records st + 1"
  by (simp_all add: add_marker_def)

lemma parse_icews:
  "parse_temporal_tokens lib tokens ''icews'' st =
     (if 4 \<le> length tokens then
        (case strptime_ymd lib (tokens ! 3) of
           None \<Rightarrow> Inr st
         | Some dt \<Rightarrow>
             Inr (st\<lparr> year_counter := incr (year_counter st) (date_year dt),
                 min_date := (case min_date st of
                                None \<Rightarrow> Some dt
                              | Some m \<Rightarrow> if dt < m then Some dt else Some m),
                 max_date := (case max_date st of
                                None \<Rightarrow> Some dt
                              | Some m \<Rightarrow> if dt > m then Some dt else Some m) \<rparr>))
      else Inr st)"
  by (simp add: parse_temporal_tokens_def)

lemma parse_wikidata:
  "5 \<le> length tokens \<Longrightarrow>
   parse_temporal_tokens lib tokens ''wikidata'' st =
     Inr (if strip lib (tokens ! 4) \<noteq> [] then
            (case int_of_str lib (strip lib (tokens ! 4)) of
               None \<Rightarrow> add_marker (tokens ! 3) st
             | Some year \<Rightarrow> add_year year (add_marker (tokens ! 3) st))
          else add_marker (tokens ! 3) st)"
  by (simp add: parse_temporal_tokens_def Let_def split: option.splits)

lemma parse_yago:
  "5 \<le> length tokens \<Longrightarrow>
   parse_temporal_tokens lib tokens ''yago'' st =
     (if 4 \<le> length (filter (str_isdigit lib) (strip_chars [dquote] (tokens ! 4))) then
        (case int_of_str lib (take 4 (filter (str_isdigit lib) (strip_chars [dquote] (tokens ! 4)))) of
           None \<Rightarrow> Inl ValueError
         | Some year \<Rightarrow>
             Inr (add_year year
                    (add_marker (strip_chars [CHR ''<'', CHR ''>'', dquote] (tokens ! 3)) st)))
      else Inr (add_marker (strip_chars [CHR ''<'', CHR ''>'', dquote] (tokens ! 3)) st))"
  by (simp add: parse_temporal_tokens_def Let_def)

text \<open>A successful extraction leaves the triple counts alone.\<close>

lemma parse_temporal_tokens_frame:
  assumes "parse_temporal_tokens lib tokens ty st = Inr s'"
  shows "triples s' = triples st \<and> subjects s' = subjects st \<and> objects s' = objects st \<and>
         relations s' = relations st \<and> subject_counter s' = subject_counter st \<and>
         object_counter s' = object_counter st \<and> entity_counter s' = entity_counter st \<and>
         relation_counter s' = relation_counter st"
proof -
  consider "ty = ''icews''" | "ty = ''wikidata''" | "ty = ''yago''"
    | "ty \<noteq> ''icews''" "ty \<noteq> ''wikidata''" "ty \<noteq> ''yago''"
    by blast
  then show ?thesis
  proof cases
    case 1
    show ?thesis
    proof (cases "strptime_ymd lib (tokens ! 3)")
      case None
      with assms 1 show ?thesis by (auto simp: parse_icews split: if_splits)
    next
      case (Some dt)
      with assms 1 show ?thesis by (auto simp: parse_icews split: if_splits)
    qed
  next
    case 2
    show ?thesis
    proof (cases "5 \<le> length tokens")
      case True
      show ?thesis
      proof (cases "int_of_str lib (strip lib (tokens ! 4))")
        case None
        with assms show ?thesis
          unfolding 2 parse_wikidata [OF True]
          by (auto simp: add_marker_frame split: if_splits)
      next
        case (Some y)
        with assms show ?thesis
          unfolding 2 parse_wikidata [OF True]
          by (auto simp: add_marker_frame add_year_frame split: if_splits)
      qed
    next
      case False
      with assms 2 show ?thesis by (simp add: parse_temporal_tokens_def)
    qed
  next
    case 3
    show ?thesis
    proof (cases "5 \<le> length tokens")
      case True
      show ?thesis
        using assms unfolding 3 parse_yago [OF True]
        by (auto simp: add_marker_frame add_year_frame split: if_splits option.splits)
    next
      case False
      with assms 3 show ?thesis by (simp add: parse_temporal_tokens_def)
    qed
  next
    case 4
    with assms show ?thesis by (simp add: parse_temporal_tokens_def)
  qed
qed

lemma process_line_accepted:
  "tokens = split_on tab (strip lib raw_line) \<Longrightarrow> 3 \<le> length tokens \<Longrightarrow>
   process_line lib ty raw_line st =
     parse_temporal_tokens lib tokens ty (add_triple (tokens ! 0) (tokens ! 1) (tokens ! 2) st)"
  by (auto simp: process_line_def Let_def)

lemma process_line_skipped:
  "tokens = split_on tab (strip lib raw_line) \<Longrightarrow> length tokens < 3 \<Longrightarrow>
   process_line lib ty raw_line st = Inr st"
  by (auto simp: process_line_def Let_def)

lemma process_line_cases:
  "process_line lib ty raw_line st = Inr st \<or>
   (\<exists>tokens. process_line lib ty raw_line st =
      parse_temporal_tokens lib tokens ty (add_triple (tokens ! 0) (tokens ! 1) (tokens ! 2) st))"
  by (auto simp: process_line_def Let_def)

text \<open>Only the fact-extraction branch can raise.\<close>

lemma parse_succeeds:
  "ty \<noteq> ''yago'' \<Longrightarrow> \<exists>s'. parse_temporal_tokens lib tokens ty st = Inr s'"
  by (simp add: parse_temporal_tokens_def Let_def split: option.splits)

lemma process_line_succeeds:
  "ty \<noteq> ''yago'' \<Longrightarrow> \<exists>s'. process_line lib ty raw_line st = Inr s'"
  using process_line_cases [of lib ty raw_line st] parse_succeeds [of ty lib]
  by metis

text \<open>Every value the accumulator produces has its range bounds paired.\<close>

lemma bounds_paired_init: "bounds_paired init_stats"
  by (simp add: bounds_paired_def init_stats_def)

lemma bounds_paired_add_triple: "bounds_paired st \<Longrightarrow> bounds_paired (add_triple s r ob st)"
  by (simp add: bounds_paired_def add_triple_simps)

lemma bounds_paired_add_marker: "bounds_paired st \<Longrightarrow> bounds_paired (add_marker m st)"
  by (simp add: bounds_paired_def add_marker_frame)

lemma bounds_paired_add_year: "bounds_paired st \<Longrightarrow> bounds_paired (add_year y st)"
  by (simp add: bounds_paired_def add_year_def split: option.splits)

lemma bounds_paired_parse:
  assumes "bounds_paired st" and "parse_temporal_tokens lib tokens ty st = Inr s'"
  shows "bounds_paired s'"
proof -
  consider "ty = ''icews''" | "ty = ''wikidata''" | "ty = ''yago''"
    | "ty \<noteq> ''icews''" "ty \<noteq> ''wikidata''" "ty \<noteq> ''yago''"
    by blast
  then show ?thesis
  proof cases
    case 1
    show ?thesis
    proof (cases "strptime_ymd lib (tokens ! 3)")
      case None
      with assms 1 show ?thesis by (auto simp: parse_icews split: if_splits)
    next
      case (Some dt)
      with assms 1 show ?thesis
        by (auto simp: parse_icews bounds_paired_def split: if_splits option.splits)
    qed
  next
    case 2
    show ?thesis
    proof (cases "5 \<le> length tokens")
      case True
      show ?thesis
        using assms unfolding 2 parse_wikidata [OF True]
        by (auto simp: bounds_paired_add_marker bounds_paired_add_year
            split: if_splits option.splits)
    next
      case False
      with assms 2 show ?thesis by (simp add: parse_temporal_tokens_def)
    qed
  next
    case 3
    show ?thesis
    proof (cases "5 \<le> length tokens")
      case True
      show ?thesis
        using assms unfolding 3 parse_yago [OF True]
        by (auto simp: bounds_paired_add_marker bounds_paired_add_year
            split: if_splits option.splits)
    next
      case False
      with assms 3 show ?thesis by (simp add: parse_temporal_tokens_def)
    qed
  next
    case 4
    with assms show ?thesis by (simp add: parse_temporal_tokens_def)
  qed
qed

lemma bounds_paired_process_line:
  assumes "bounds_paired st" and "process_line lib ty raw_line st = Inr s'"
  shows "bounds_paired s'"
proof -
  consider "process_line lib ty raw_line st = Inr st"
    | tokens where "process_line lib ty raw_line st =
        parse_temporal_tokens lib tokens ty (add_triple (tokens ! 0) (tokens ! 1) (tokens ! 2) st)"
    using process_line_cases [of lib ty raw_line st] by blast
  then show ?thesis
  proof cases
    case 1
    with assms show ?thesis by simp
  next
    case 2
    with assms(2) have "parse_temporal_tokens lib tokens ty
        (add_triple (tokens ! 0) (tokens ! 1) (tokens ! 2) st) = Inr s'"
      by simp
    then show ?thesis
      using bounds_paired_parse bounds_paired_add_triple [OF assms(1)] by blast
  qed
qed

lemma bounds_paired_process_lines:
  "bounds_paired st \<Longrightarrow> process_lines lib ty raw_lines st = Inr s \<Longrightarrow> bounds_paired s"
proof (induction raw_lines arbitrary: st)
  case Nil
  then show ?case by simp
next
  case (Cons l ls)
  from Cons.prems(2) obtain s1 where l: "process_line lib ty l st = Inr s1"
    and r: "process_lines lib ty ls s1 = Inr s"
    by (auto split: sum.splits)
  show ?case
    using Cons.IH [OF bounds_paired_process_line [OF Cons.prems(1) l] r] .
qed

lemma bounds_paired_process_file:
  "process_file lib raw_lines ty = Inr s \<Longrightarrow> bounds_paired s"
  unfolding process_file_def using bounds_paired_process_lines [OF bounds_paired_init] .

text \<open>The entity invariant along the loop.\<close>

lemma entity_inv_add_triple: "entity_inv st \<Longrightarrow> entity_inv (add_triple s r ob st)"
  by (simp add: entity_inv_def add_triple_simps count_incr)

lemma entity_inv_parse:
  "entity_inv st \<Longrightarrow> parse_temporal_tokens lib tokens ty st = Inr s' \<Longrightarrow> entity_inv s'"
  using parse_temporal_tokens_frame [of lib tokens ty st s']
  by (simp add: entity_inv_def)

lemma entity_inv_process_line:
  assumes "entity_inv st" and "process_line lib ty raw_line st = Inr s'"
  shows "entity_inv s'"
proof -
  consider "process_line lib ty raw_line st = Inr st"
    | tokens where "process_line lib ty raw_line st =
        parse_temporal_tokens lib tokens ty (add_triple (tokens ! 0) (tokens ! 1) (tokens ! 2) st)"
    using process_line_cases [of lib ty raw_line st] by blast
  then show ?thesis
  proof cases
    case 1
    with assms show ?thesis by simp
  next
    case 2
    with assms(2) have "parse_temporal_tokens lib tokens ty
        (add_triple (tokens ! 0) (tokens ! 1) (tokens ! 2) st) = Inr s'"
      by simp
    then show ?thesis
      using entity_inv_parse entity_inv_add_triple [OF assms(1)] by blast
  qed
qed

lemma entity_inv_process_lines:
  "entity_inv st \<Longrightarrow> process_lines lib ty raw_lines st = Inr s \<Longrightarrow> entity_inv s"
proof (induction raw_lines arbitrary: st)
  case Nil
  then show ?case by simp
next
  case (Cons l ls)
  from Cons.prems(2) obtain s1 where l: "process_line lib ty l st = Inr s1"
    and r: "process_lines lib ty ls s1 = Inr s"
    by (auto split: sum.splits)
  show ?case
    using Cons.IH [OF entity_inv_process_line [OF Cons.prems(1) l] r] .
qed

lemma entity_inv_init: "entity_inv init_stats"
  by (simp add: entity_inv_def init_stats_def)

lemma entity_inv_merge: "entity_inv a \<Longrightarrow> entity_inv b \<Longrightarrow> entity_inv (merge_stats a b)"
  by (simp add: entity_inv_def merge_simps count_counter_update)

text \<open>
  C7. The statistics of every file satisfy, for every entity, that its entity frequency is
  the sum of its subject and object frequencies (a missing key counting as zero), and the
  merge of two values with this property has it again.
\<close>

theorem entity_counter_invariant:
  "(\<forall>s. process_file lib raw_lines dataset_type = Inr s \<longrightarrow> entity_inv s) \<and>
   (entity_inv a \<and> entity_inv b \<longrightarrow> entity_inv (merge_stats a b))"
  using entity_inv_process_lines [OF entity_inv_init, of lib dataset_type raw_lines]
  by (simp add: process_file_def entity_inv_merge)

lemmas latin1_simps = latin1_def strip_def strip_with_def strip_chars_def isspace_def
  ascii_digit_def isdigit_def tab_def dquote_def nonzero_digit_def digit_val_def nat_of_digits_def

lemmas char_eval = lower_def lower_char_def digit_char_def char_of_def bit_Suc_0_iff

lemmas stats_eval = process_file_def process_line_def parse_temporal_tokens_def add_triple_def
  add_marker_def add_year_def incr_def count_def init_stats_def Let_def

theorem entity_counter_invariant_witness:
  "process_file latin1 [''A'' @ [tab] @ ''rel'' @ [tab] @ ''B''] ''generic'' =
     Inr (add_triple ''A'' ''rel'' ''B'' init_stats) \<and>
   entity_inv (add_triple ''A'' ''rel'' ''B'' init_stats) \<and>
   entity_inv (add_triple ''B'' ''rel'' ''B'' init_stats) \<and>
   entity_inv (merge_stats (add_triple ''A'' ''rel'' ''B'' init_stats)
                 (add_triple ''B'' ''rel'' ''B'' init_stats))"
proof -
  have p: "process_file latin1 [''A'' @ [tab] @ ''rel'' @ [tab] @ ''B''] ''generic'' =
     Inr (add_triple ''A'' ''rel'' ''B'' init_stats)"
    by (simp add: process_file_def process_line_def parse_temporal_tokens_def Let_def latin1_simps)
  have b: "entity_inv (add_triple ''B'' ''rel'' ''B'' init_stats)"
    by (simp add: entity_inv_def add_triple_simps count_incr init_stats_def)
  show ?thesis
    using p b entity_counter_invariant
      [of latin1 "[''A'' @ [tab] @ ''rel'' @ [tab] @ ''B'']" "''generic''"
          "add_triple ''A'' ''rel'' ''B'' init_stats" "add_triple ''B'' ''rel'' ''B'' init_stats"]
    by simp
qed

section \<open>Properties of the accumulator\<close>

text \<open>
  C5, as amended. With \<open>tokens\<close> the tab-separated columns of the trimmed line: fewer
  than three columns leave the statistics unchanged; with three or more, in the
  statistics after the line the triple count has grown by one, the three columns have
  entered the subject, relation and object sets, the subject, relation and object
  frequencies of these columns have grown by one, and the entity frequency has grown by
  one for each of the two occurrences: by one for the subject and one for the object when
  they differ, by two when the same entity is both. Outside the fact-extraction datasets
  every line yields such statistics.
\<close>

theorem process_line_triple_counts:
  assumes "tokens = split_on tab (strip lib raw_line)"
  shows "(length tokens < 3 \<longrightarrow> process_line lib ty raw_line st = Inr st) \<and>
         (3 \<le> length tokens \<longrightarrow>
            (ty \<noteq> ''yago'' \<longrightarrow> (\<exists>s'. process_line lib ty raw_line st = Inr s')) \<and>
            (\<forall>s'. process_line lib ty raw_line st = Inr s' \<longrightarrow>
               triples s' = triples st + 1 \<and>
               subjects s' = insert (tokens ! 0) (subjects st) \<and>
               relations s' = insert (tokens ! 1) (relations st) \<and>
               objects s' = insert (tokens ! 2) (objects st) \<and>
               (\<forall>e. count (subject_counter s') e =
                      count (subject_counter st) e + (if e = tokens ! 0 then 1 else 0)) \<and>
               (\<forall>e. count (relation_counter s') e =
                      count (relation_counter st) e + (if e = tokens ! 1 then 1 else 0)) \<and>
               (\<forall>e. count (object_counter s') e =
                      count (object_counter st) e + (if e = tokens ! 2 then 1 else 0)) \<and>
               (\<forall>e. count (entity_counter s') e =
                      count (entity_counter st) e + (if e = tokens ! 0 then 1 else 0)
                        + (if e = tokens ! 2 then 1 else 0))))"
proof (intro conjI impI allI)
  assume "length tokens < 3"
  then show "process_line lib ty raw_line st = Inr st"
    using assms by (rule process_line_skipped [rotated])
next
  assume "3 \<le> length tokens" and ne: "ty \<noteq> ''yago''"
  show "\<exists>s'. process_line lib ty raw_line st = Inr s'"
    using ne by (rule process_line_succeeds)
next
  fix s'
  assume len: "3 \<le> length tokens" and ok: "process_line lib ty raw_line st = Inr s'"
  have "parse_temporal_tokens lib tokens ty
          (add_triple (tokens ! 0) (tokens ! 1) (tokens ! 2) st) = Inr s'"
    using ok process_line_accepted [OF assms len, of ty st] by simp
  note fr = parse_temporal_tokens_frame [OF this]
  show "triples s' = triples st + 1"
    by (simp add: fr add_triple_simps)
  show "subjects s' = insert (tokens ! 0) (subjects st)"
    by (simp add: fr add_triple_simps)
  show "relations s' = insert (tokens ! 1) (relations st)"
    by (simp add: fr add_triple_simps)
  show "objects s' = insert (tokens ! 2) (objects st)"
    by (simp add: fr add_triple_simps)
  show "count (subject_counter s') e =
          count (subject_counter st) e + (if e = tokens ! 0 then 1 else 0)" for e
    by (simp add: fr add_triple_simps count_incr)
  show "count (relation_counter s') e =
          count (relation_counter st) e + (if e = tokens ! 1 then 1 else 0)" for e
    by (simp add: fr add_triple_simps count_incr)
  show "count (object_counter s') e =
          count (object_counter st) e + (if e = tokens ! 2 then 1 else 0)" for e
    by (simp add: fr add_triple_simps count_incr)
  show "count (entity_counter s') e =
          count (entity_counter st) e + (if e = tokens ! 0 then 1 else 0)
            + (if e = tokens ! 2 then 1 else 0)" for e
    by (simp add: fr add_triple_simps count_incr)
qed

theorem process_line_triple_counts_witness:
  "split_on tab (strip latin1 (''A'' @ [tab] @ ''rel'' @ [tab] @ ''B'')) = [''A'', ''rel'', ''B''] \<and>
   process_line latin1 ''generic'' (''A'' @ [tab] @ ''rel'' @ [tab] @ ''B'') init_stats =
     Inr (add_triple ''A'' ''rel'' ''B'' init_stats) \<and>
   triples (add_triple ''A'' ''rel'' ''B'' init_stats) = 1 \<and>
   subjects (add_triple ''A'' ''rel'' ''B'' init_stats) = {''A''} \<and>
   count (entity_counter (add_triple ''A'' ''rel'' ''B'' init_stats)) ''A'' = 1 \<and>
   count (entity_counter (add_triple ''A'' ''rel'' ''B'' init_stats)) ''B'' = 1"
proof -
  have t: "split_on tab (strip latin1 (''A'' @ [tab] @ ''rel'' @ [tab] @ ''B'')) = [''A'', ''rel'', ''B'']"
    by (simp add: latin1_simps)
  have p: "process_line latin1 ''generic'' (''A'' @ [tab] @ ''rel'' @ [tab] @ ''B'') init_stats =
     Inr (add_triple ''A'' ''rel'' ''B'' init_stats)"
    by (simp add: process_line_def parse_temporal_tokens_def Let_def latin1_simps)
  show ?thesis
    using t p process_line_triple_counts [OF t [symmetric], of "''generic''" init_stats]
    by (simp add: init_stats_def)
qed

text \<open>
  C5 as stated fails on a triple whose subject is also its object, where the entity
  frequency of that entity grows by two, not by one; and on a raw line that splits into
  three columns while its trimmed text has two, a non-blank line that is skipped.
\<close>

theorem process_line_entity_counterexample:
  "process_line latin1 ''generic'' (''A'' @ [tab] @ ''rel'' @ [tab] @ ''A'') init_stats =
     Inr (add_triple ''A'' ''rel'' ''A'' init_stats) \<and>
   count (entity_counter init_stats) ''A'' = 0 \<and>
   count (entity_counter (add_triple ''A'' ''rel'' ''A'' init_stats)) ''A'' = 2 \<and>
   length (split_on tab (''A'' @ [tab] @ ''B'' @ [tab, CHR 0x0A])) = 3 \<and>
   strip latin1 (''A'' @ [tab] @ ''B'' @ [tab, CHR 0x0A]) \<noteq> [] \<and>
   process_line latin1 ''generic'' (''A'' @ [tab] @ ''B'' @ [tab, CHR 0x0A]) init_stats =
     Inr init_stats"
  by (simp add: process_line_def parse_temporal_tokens_def Let_def latin1_simps
      add_triple_simps count_incr init_stats_def)



text \<open>
  C4, as amended. For a linked-data line whose trimmed text splits into at least five
  columns, also when the fifth is empty after trimming, the temporal record count and the
  frequency of the marker in column four each grow by exactly one whether or not the year
  token parses; an empty or unparsable year token contributes no year, a parsable one
  increments the frequency of that year.
\<close>

theorem wikidata_marker_always_counted:
  assumes "tokens = split_on tab (strip lib raw_line)" and "5 \<le> length tokens"
  shows "\<exists>s'. process_line lib ''wikidata'' raw_line st = Inr s' \<and>
           temporal_records s' = temporal_records st + 1 \<and>
           (\<forall>m. count (temporal_marker_counter s') m =
                  count (temporal_marker_counter st) m + (if m = tokens ! 3 then 1 else 0)) \<and>
           (\<forall>y. count (year_counter s') y =
                  count (year_counter st) y +
                    (if strip lib (tokens ! 4) \<noteq> [] \<and>
                        int_of_str lib (strip lib (tokens ! 4)) = Some y then 1 else 0))"
proof -
  have len: "3 \<le> length tokens" using assms(2) by simp
  let ?t = "add_triple (tokens ! 0) (tokens ! 1) (tokens ! 2) st"
  note eq = process_line_accepted [OF assms(1) len, of "''wikidata''" st]
  show ?thesis
  proof (cases "strip lib (tokens ! 4) = []")
    case True
    then have "process_line lib ''wikidata'' raw_line st = Inr (add_marker (tokens ! 3) ?t)"
      by (simp add: eq parse_wikidata [OF assms(2)])
    then show ?thesis
      using True by (simp add: add_marker_frame add_triple_simps count_incr)
  next
    case False
    show ?thesis
    proof (cases "int_of_str lib (strip lib (tokens ! 4))")
      case None
      then have "process_line lib ''wikidata'' raw_line st = Inr (add_marker (tokens ! 3) ?t)"
        using False by (simp add: eq parse_wikidata [OF assms(2)])
      then show ?thesis
        using None by (simp add: add_marker_frame add_triple_simps count_incr)
    next
      case (Some year)
      then have "process_line lib ''wikidata'' raw_line st =
          Inr (add_year year (add_marker (tokens ! 3) ?t))"
        using False by (simp add: eq parse_wikidata [OF assms(2)])
      then show ?thesis
        using Some False
        by (simp add: add_marker_frame add_year_frame add_triple_simps count_incr)
    qed
  qed
qed

theorem wikidata_marker_always_counted_witness:
  "split_on tab (strip latin1
      (''A'' @ [tab] @ ''rel'' @ [tab] @ ''B'' @ [tab] @ ''since'' @ [tab] @ [tab] @ ''x'')) =
     [''A'', ''rel'', ''B'', ''since'', '''', ''x''] \<and>
   process_line latin1 ''wikidata''
     (''A'' @ [tab] @ ''rel'' @ [tab] @ ''B'' @ [tab] @ ''since'' @ [tab] @ [tab] @ ''x'') init_stats =
     Inr (add_marker ''since'' (add_triple ''A'' ''rel'' ''B'' init_stats)) \<and>
   temporal_records (add_marker ''since'' (add_triple ''A'' ''rel'' ''B'' init_stats)) = 1 \<and>
   count (temporal_marker_counter (add_marker ''since'' (add_triple ''A'' ''rel'' ''B'' init_stats)))
     ''since'' = 1 \<and>
   year_counter (add_marker ''since'' (add_triple ''A'' ''rel'' ''B'' init_stats)) = DAList.empty"
proof -
  have t: "split_on tab (strip latin1
      (''A'' @ [tab] @ ''rel'' @ [tab] @ ''B'' @ [tab] @ ''since'' @ [tab] @ [tab] @ ''x'')) =
     [''A'', ''rel'', ''B'', ''since'', '''', ''x'']"
    by (simp add: latin1_simps)
  have l: "5 \<le> length [''A'', ''rel'', ''B'', ''since'', '''', ''x'']" by simp
  have p: "process_line latin1 ''wikidata''
     (''A'' @ [tab] @ ''rel'' @ [tab] @ ''B'' @ [tab] @ ''since'' @ [tab] @ [tab] @ ''x'') init_stats =
     Inr (add_marker ''since'' (add_triple ''A'' ''rel'' ''B'' init_stats))"
    by (simp add: process_line_def Let_def parse_wikidata latin1_simps)
  show ?thesis
    using t p wikidata_marker_always_counted [OF t [symmetric] l, of init_stats]
    by (simp add: add_marker_frame add_triple_simps count_incr init_stats_def)
qed

text \<open>
  C4 as stated fails on a raw line that ends in a tab right after the marker: trimming the
  whole line removes that tab, four columns remain, and the accepted triple contributes no
  temporal record and no marker.
\<close>

theorem wikidata_trailing_tab_counterexample:
  "process_file latin1
     [''A'' @ [tab] @ ''rel'' @ [tab] @ ''B'' @ [tab] @ ''since'' @ [tab, CHR 0x0A]] ''wikidata'' =
     Inr (add_triple ''A'' ''rel'' ''B'' init_stats) \<and>
   triples (add_triple ''A'' ''rel'' ''B'' init_stats) = 1 \<and>
   temporal_records (add_triple ''A'' ''rel'' ''B'' init_stats) = 0 \<and>
   count (temporal_marker_counter (add_triple ''A'' ''rel'' ''B'' init_stats)) ''since'' = 0"
  by (simp add: process_file_def process_line_def parse_temporal_tokens_def Let_def latin1_simps
      add_triple_simps init_stats_def)

lemma take_filter_leading:
  "n \<le> length (takeWhile P xs) \<Longrightarrow> take n (filter P xs) = take n xs"
proof (induction xs arbitrary: n)
  case Nil
  then show ?case by simp
next
  case (Cons x xs)
  show ?case
  proof (cases n)
    case 0
    then show ?thesis by simp
  next
    case (Suc m)
    with Cons.prems have px: "P x" and m: "m \<le> length (takeWhile P xs)"
      by (auto split: if_splits)
    show ?thesis
      using Cons.IH [OF m] px by (simp add: Suc)
  qed
qed

text \<open>
  C3, as amended. For a fact-extraction line with at least five columns the marker is
  column four without its surrounding angle brackets and quotes and the date token is
  column five without its surrounding quotes. The digits are all digit characters of the
  date token in their order, not only a leading run. With fewer than four of them, or
  when the first four convert to an integer, the temporal record count and the marker
  frequency grow by one, and that integer, if there are four digits, is the year
  contributed; with fewer than four no year is contributed. When the token starts with at
  least four digits these are the first four characters of the token.
\<close>

theorem yago_year_from_digits:
  assumes "5 \<le> length tokens"
    and "marker = strip_chars [CHR ''<'', CHR ''>'', dquote] (tokens ! 3)"
    and "date_token = strip_chars [dquote] (tokens ! 4)"
    and "digits = filter (str_isdigit lib) date_token"
  shows "(length digits < 4 \<or> int_of_str lib (take 4 digits) \<noteq> None \<longrightarrow>
           (\<exists>s'. parse_temporal_tokens lib tokens ''yago'' st = Inr s' \<and>
              temporal_records s' = temporal_records st + 1 \<and>
              (\<forall>m. count (temporal_marker_counter s') m =
                     count (temporal_marker_counter st) m + (if m = marker then 1 else 0)) \<and>
              (\<forall>y. count (year_counter s') y =
                     count (year_counter st) y +
                       (if 4 \<le> length digits \<and> int_of_str lib (take 4 digits) = Some y
                        then 1 else 0)))) \<and>
         (4 \<le> length (takeWhile (str_isdigit lib) date_token) \<longrightarrow>
            take 4 digits = take 4 date_token)"
proof (intro conjI impI)
  note eq = parse_yago [OF assms(1), of lib st, folded assms(2) assms(3), folded assms(4)]
  assume ok: "length digits < 4 \<or> int_of_str lib (take 4 digits) \<noteq> None"
  show "\<exists>s'. parse_temporal_tokens lib tokens ''yago'' st = Inr s' \<and>
              temporal_records s' = temporal_records st + 1 \<and>
              (\<forall>m. count (temporal_marker_counter s') m =
                     count (temporal_marker_counter st) m + (if m = marker then 1 else 0)) \<and>
              (\<forall>y. count (year_counter s') y =
                     count (year_counter st) y +
                       (if 4 \<le> length digits \<and> int_of_str lib (take 4 digits) = Some y
                        then 1 else 0))"
  proof (cases "4 \<le> length digits")
    case False
    then have "parse_temporal_tokens lib tokens ''yago'' st = Inr (add_marker marker st)"
      by (simp add: eq)
    then show ?thesis
      using False by (simp add: add_marker_frame count_incr)
  next
    case True
    with ok obtain year where y: "int_of_str lib (take 4 digits) = Some year"
      by auto
    then have "parse_temporal_tokens lib tokens ''yago'' st =
        Inr (add_year year (add_marker marker st))"
      using True by (simp add: eq)
    then show ?thesis
      using True y by (simp add: add_marker_frame add_year_frame count_incr)
  qed
next
  assume "4 \<le> length (takeWhile (str_isdigit lib) date_token)"
  then show "take 4 digits = take 4 date_token"
    unfolding assms(4) by (rule take_filter_leading)
qed

text \<open>
  When the first four digit characters do not convert, the \<open>ValueError\<close> of \<open>int\<close>
  leaves the extractor: the superscript two is a digit character that \<open>int\<close> refuses.
\<close>

lemma yago_value_error:
  assumes "5 \<le> length tokens"
    and "digits = filter (str_isdigit lib) (strip_chars [dquote] (tokens ! 4))"
    and "4 \<le> length digits" and "int_of_str lib (take 4 digits) = None"
  shows "parse_temporal_tokens lib tokens ''yago'' st = Inl ValueError"
  using assms(3,4) unfolding parse_yago [OF assms(1)] assms(2) by simp

lemma yago_superscript_aborts:
  "parse_temporal_tokens latin1
     [''A'', ''rel'', ''B'', ''<occursSince>'', ''199'' @ [CHR 0xB2] @ ''5''] ''yago'' init_stats =
   Inl ValueError"
  by (simp add: parse_temporal_tokens_def Let_def latin1_simps py_int_def int_text_def
      int_body_def c_isspace_def)

theorem yago_year_from_digits_witness:
  "parse_temporal_tokens latin1
      [''A'', ''rel'', ''B'', ''<occursSince>'', dquote # ''1995-01-01'' @ [dquote]] ''yago'' init_stats =
     Inr (add_year 1995 (add_marker ''occursSince'' init_stats)) \<and>
   count (temporal_marker_counter (add_year 1995 (add_marker ''occursSince'' init_stats)))
      ''occursSince'' = 1 \<and>
   count (year_counter (add_year 1995 (add_marker ''occursSince'' init_stats))) 1995 = 1"
proof -
  have l: "5 \<le> length [''A'', ''rel'', ''B'', ''<occursSince>'', dquote # ''1995-01-01'' @ [dquote]]"
    by simp
  have m: "''occursSince'' = strip_chars [CHR ''<'', CHR ''>'', dquote]
      ([''A'', ''rel'', ''B'', ''<occursSince>'', dquote # ''1995-01-01'' @ [dquote]] ! 3)"
    by (simp add: latin1_simps)
  have d: "''1995-01-01'' = strip_chars [dquote]
      ([''A'', ''rel'', ''B'', ''<occursSince>'', dquote # ''1995-01-01'' @ [dquote]] ! 4)"
    by (simp add: latin1_simps)
  have g: "''19950101'' = filter (str_isdigit latin1) ''1995-01-01''"
    by (simp add: latin1_simps)
  have i: "int_of_str latin1 ''1995'' = Some 1995"
    by (simp add: latin1_simps py_int_def int_text_def int_body_def c_isspace_def)
  have p: "parse_temporal_tokens latin1
      [''A'', ''rel'', ''B'', ''<occursSince>'', dquote # ''1995-01-01'' @ [dquote]] ''yago'' init_stats =
     Inr (add_year 1995 (add_marker ''occursSince'' init_stats))"
    by (simp add: parse_temporal_tokens_def Let_def latin1_simps py_int_def int_text_def
        int_body_def c_isspace_def)
  show ?thesis
    using p i yago_year_from_digits [OF l m d g, of init_stats]
    by (simp add: add_marker_frame add_year_frame count_incr init_stats_def)
qed

text \<open>
  C3 as stated fails on the date token \<open>1-9950\<close>: its leading run of digits has length
  one, yet the year 1995 is contributed.
\<close>

theorem yago_leading_run_counterexample:
  "length (takeWhile (str_isdigit latin1) ''1-9950'') = 1 \<and>
   parse_temporal_tokens latin1
      [''A'', ''rel'', ''B'', ''<occursSince>'', ''1-9950''] ''yago'' init_stats =
     Inr (add_year 1995 (add_marker ''occursSince'' init_stats)) \<and>
   count (year_counter init_stats) 1995 = 0 \<and>
   count (year_counter (add_year 1995 (add_marker ''occursSince'' init_stats))) 1995 = 1"
  by (simp add: parse_temporal_tokens_def Let_def latin1_simps py_int_def int_text_def
      int_body_def c_isspace_def add_marker_frame add_year_frame count_incr init_stats_def)

lemma parse_icews_frame:
  "\<exists>s'. parse_temporal_tokens lib tokens ''icews'' st = Inr s' \<and>
     temporal_records s' = temporal_records st \<and>
     temporal_marker_counter s' = temporal_marker_counter st"
  by (cases "strptime_ymd lib (tokens ! 3)") (simp_all add: parse_icews)

lemma icews_line_frame:
  "\<exists>s'. process_line lib ''icews'' raw_line st = Inr s' \<and>
     temporal_records s' = temporal_records st \<and>
     temporal_marker_counter s' = temporal_marker_counter st"
proof -
  consider "process_line lib ''icews'' raw_line st = Inr st"
    | tokens where "process_line lib ''icews'' raw_line st =
        parse_temporal_tokens lib tokens ''icews''
          (add_triple (tokens ! 0) (tokens ! 1) (tokens ! 2) st)"
    using process_line_cases [of lib "''icews''" raw_line st] by blast
  then show ?thesis
  proof cases
    case 1
    then show ?thesis by simp
  next
    case 2
    show ?thesis
      unfolding 2
      using parse_icews_frame [of lib tokens "add_triple (tokens ! 0) (tokens ! 1) (tokens ! 2) st"]
      by (simp add: add_triple_simps)
  qed
qed

lemma icews_lines_frame:
  "\<exists>s. process_lines lib ''icews'' raw_lines st = Inr s \<and>
     temporal_records s = temporal_records st \<and>
     temporal_marker_counter s = temporal_marker_counter st"
proof (induction raw_lines arbitrary: st)
  case Nil
  show ?case by simp
next
  case (Cons l ls)
  obtain s1 where l: "process_line lib ''icews'' l st = Inr s1"
    and f1: "temporal_records s1 = temporal_records st"
      "temporal_marker_counter s1 = temporal_marker_counter st"
    using icews_line_frame [of lib l st] by blast
  obtain s where r: "process_lines lib ''icews'' ls s1 = Inr s"
    and f2: "temporal_records s = temporal_records s1"
      "temporal_marker_counter s = temporal_marker_counter s1"
    using Cons.IH [of s1] by blast
  show ?case
    using l r f1 f2 by simp
qed

text \<open>
  C10. On an event-calendar dataset the extractor never changes the temporal record count
  or the marker frequencies, whether the date parses or not, so the statistics of such a
  file have no temporal records and no markers.
\<close>

theorem icews_no_temporal_records:
  "(\<exists>s'. parse_temporal_tokens lib tokens ''icews'' st = Inr s' \<and>
      temporal_records s' = temporal_records st \<and>
      temporal_marker_counter s' = temporal_marker_counter st) \<and>
   (\<exists>s. process_file lib raw_lines ''icews'' = Inr s \<and>
      temporal_records s = 0 \<and>
      temporal_marker_counter s = DAList.empty)"
  using parse_icews_frame [of lib tokens st] icews_lines_frame [of lib raw_lines init_stats]
  by (simp add: process_file_def init_stats_def)

theorem icews_no_temporal_records_witness:
  "strptime_ymd latin1 ''2010-05-01'' = Some (2010, 5, 1) \<and>
   (\<exists>s. process_file latin1 [''A'' @ [tab] @ ''rel'' @ [tab] @ ''B'' @ [tab] @ ''2010-05-01'']
          ''icews'' = Inr s \<and>
        count (year_counter s) 2010 = 1 \<and>
        temporal_records s = 0 \<and>
        temporal_marker_counter s = DAList.empty)"
proof -
  have p: "strptime_ymd latin1 ''2010-05-01'' = Some (2010, 5, 1)"
    by (simp add: strptime_def latin1_simps make_date_def days_in_month_def)
  obtain s where s: "process_file latin1
        [''A'' @ [tab] @ ''rel'' @ [tab] @ ''B'' @ [tab] @ ''2010-05-01''] ''icews'' = Inr s"
      and f: "temporal_records s = 0" "temporal_marker_counter s = DAList.empty"
    using icews_no_temporal_records
      [of latin1 "[]" init_stats "[''A'' @ [tab] @ ''rel'' @ [tab] @ ''B'' @ [tab] @ ''2010-05-01'']"]
    by blast
  have "process_file latin1 [''A'' @ [tab] @ ''rel'' @ [tab] @ ''B'' @ [tab] @ ''2010-05-01'']
      ''icews'' =
    Inr ((add_triple ''A'' ''rel'' ''B'' init_stats)
          \<lparr>year_counter := incr DAList.empty 2010,
           min_date := Some (2010, 5, 1), max_date := Some (2010, 5, 1)\<rparr>)"
    using p
    by (simp add: process_file_def process_line_def Let_def parse_icews latin1_simps
        add_triple_simps init_stats_def date_year_def)
  with s have "count (year_counter s) 2010 = 1"
    by (auto simp: count_incr)
  with p s f show ?thesis by blast
qed

section \<open>Properties of the summary\<close>

lemma desc_key: "(- snd a \<le> - snd b) = (snd b \<le> snd (a :: 'k \<times> int))"
  by simp

lemma sorted_desc_sort:
  "sorted_wrt (\<lambda>a b. snd b \<le> snd a) (sort_key (\<lambda>kv. - snd kv) (its :: ('k \<times> int) list))"
proof -
  have "sorted (map (\<lambda>kv. - snd kv) (sort_key (\<lambda>kv. - snd kv) its))"
    by (rule sorted_sort_key)
  then show ?thesis
    by (simp add: sorted_map)
qed

lemma stable_desc_sort:
  "filter (\<lambda>kv. snd kv = v) (sort_key (\<lambda>kv. - snd kv) (its :: ('k \<times> int) list)) =
   filter (\<lambda>kv. snd kv = v) its"
proof -
  have "filter (\<lambda>y. - snd y = - v) (sort_key (\<lambda>kv. - snd kv) its) = filter (\<lambda>y. - snd y = - v) its"
    by (rule sort_key_stable)
  then show ?thesis by simp
qed

lemma prefix_filter_take: "prefix (filter P (take n xs)) (filter P xs)"
proof -
  have "filter P xs = filter P (take n xs) @ filter P (drop n xs)"
    by (metis append_take_drop_id filter_append)
  then show ?thesis
    by (simp add: prefix_def)
qed

lemma distinct_keys_sort:
  assumes "distinct (map fst its)"
  shows "distinct (map fst (take n (sort_key f its)))"
proof -
  have "distinct (map fst (sort_key f its))"
    using assms by (simp add: distinct_map)
  then have "distinct (take n (map fst (sort_key f its)))"
    by (rule distinct_take)
  then show ?thesis
    by (simp only: take_map)
qed

lemma top_of_sorted:
  assumes "sorted_wrt (\<lambda>a b. snd b \<le> snd a) s" and "x \<in> set (take n s)"
    and "y \<in> set s - set (take n s)"
  shows "snd y \<le> snd (x :: 'k \<times> int)"
proof -
  have "sorted_wrt (\<lambda>a b. snd b \<le> snd a) (take n s @ drop n s)"
    using assms(1) by simp
  then have all: "\<forall>a \<in> set (take n s). \<forall>b \<in> set (drop n s). snd b \<le> snd a"
    unfolding sorted_wrt_append by blast
  have "set s = set (take n s) \<union> set (drop n s)"
    by (metis append_take_drop_id set_append)
  then have "y \<in> set (drop n s)"
    using assms(3) by blast
  then show ?thesis
    using all assms(2) by blast
qed

lemma most_common_ranking: "ranking (items c) (nat n) (most_common c n)"
proof -
  let ?s = "sort_key (\<lambda>kv. - snd kv) (items c)"
  have set_s: "set ?s = set (items c)" by simp
  have l: "length (most_common c n) = min (nat n) (length (items c))"
    by (simp add: most_common_def)
  have sub: "set (most_common c n) \<subseteq> set (items c)"
    unfolding most_common_def using set_take_subset [of "nat n" ?s] by simp
  have d: "distinct (map fst (most_common c n))"
    unfolding most_common_def by (rule distinct_keys_sort) (simp add: items_def)
  have so: "sorted_wrt (\<lambda>a b. snd b \<le> snd a) (most_common c n)"
    unfolding most_common_def by (rule sorted_wrt_take) (rule sorted_desc_sort)
  have st: "\<forall>v \<in> snd ` set (items c).
      prefix (filter (\<lambda>kv. snd kv = v) (most_common c n)) (filter (\<lambda>kv. snd kv = v) (items c))"
  proof
    fix v
    show "prefix (filter (\<lambda>kv. snd kv = v) (most_common c n)) (filter (\<lambda>kv. snd kv = v) (items c))"
      unfolding most_common_def
      using prefix_filter_take [of "\<lambda>kv. snd kv = v" "nat n" ?s]
      by (simp only: stable_desc_sort)
  qed
  have top: "\<forall>x \<in> set (most_common c n). \<forall>y \<in> set (items c) - set (most_common c n). snd y \<le> snd x"
    unfolding most_common_def
    using top_of_sorted [OF sorted_desc_sort, of _ "nat n" "items c"] set_s by blast
  show ?thesis
    unfolding ranking_def using l sub d so st top by blast
qed

text \<open>
  C8. For every statistics value and every \<open>top_n\<close>, each of the six rankings of the
  summary has exactly as many entries as the smaller of \<open>top_n\<close> and the number of keys
  (none for a negative \<open>top_n\<close>), lists them by decreasing frequency, keeps keys of
  equal frequency in the order of their first insertion, and leaves out only keys that no
  listed key is less frequent than.
\<close>

theorem summarize_rankings:
  "ranking (items (entity_counter stats)) (nat top_n) (sm_top_entities (summarize stats top_n)) \<and>
   ranking (items (subject_counter stats)) (nat top_n) (sm_top_subjects (summarize stats top_n)) \<and>
   ranking (items (object_counter stats)) (nat top_n) (sm_top_objects (summarize stats top_n)) \<and>
   ranking (items (relation_counter stats)) (nat top_n) (sm_top_relations (summarize stats top_n)) \<and>
   ranking (items (year_counter stats)) (nat top_n) (sm_top_years (summarize stats top_n)) \<and>
   ranking (items (temporal_marker_counter stats)) (nat top_n)
     (sm_temporal_markers (summarize stats top_n))"
  by (simp add: summarize_def most_common_ranking)

theorem summarize_rankings_witness:
  "items (DAList.update ''c'' 1 (DAList.update ''b'' 5 (DAList.update ''a'' 5 DAList.empty))) =
     [(''a'', 5), (''b'', 5), (''c'', 1)] \<and>
   sm_top_entities (summarize
     (init_stats\<lparr>entity_counter :=
        DAList.update ''c'' 1 (DAList.update ''b'' 5 (DAList.update ''a'' 5 DAList.empty))\<rparr>) 2) =
     [(''a'', 5), (''b'', 5)] \<and>
   ranking [(''a'', 5), (''b'', 5), (''c'', 1)] 2 [(''a'', 5), (''b'', 5)]"
proof -
  have i: "items (DAList.update ''c'' 1 (DAList.update ''b'' 5 (DAList.update ''a'' 5 DAList.empty))) =
     [(''a'', 5), (''b'', 5), (''c'', 1)]"
    by (simp add: items_def DAList.update.rep_eq DAList.empty.rep_eq)
  have m: "sm_top_entities (summarize
     (init_stats\<lparr>entity_counter :=
        DAList.update ''c'' 1 (DAList.update ''b'' 5 (DAList.update ''a'' 5 DAList.empty))\<rparr>) 2) =
     [(''a'', 5), (''b'', 5)]"
    by (simp add: summarize_def most_common_def i)
  show ?thesis
    using i m summarize_rankings
      [of "init_stats\<lparr>entity_counter :=
        DAList.update ''c'' 1 (DAList.update ''b'' 5 (DAList.update ''a'' 5 DAList.empty))\<rparr>" 2]
    by simp
qed

section \<open>Properties of the orchestrator\<close>

lemma discover_none:
  assumes "\<forall>name \<in> set (map fst es). \<not> selected lib es include name"
  shows "discover_datasets lib (Some (Dir es)) include = Inr []"
proof -
  let ?entries = "sort (filter (isdir_entry es) (map fst es))"
  have set_e: "set ?entries = {name \<in> set (map fst es). isdir_entry es name}"
    by auto
  show ?thesis
  proof (cases "include")
    case None
    then have "\<forall>name \<in> set (map fst es). \<not> isdir_entry es name"
      using assms by (simp add: selected_def)
    then have "filter (isdir_entry es) (map fst es) = []"
      by (simp add: filter_empty_conv)
    then show ?thesis
      using None by (simp add: discover_datasets_def listdir_def entries_of_def)
  next
    case (Some inc)
    show ?thesis
    proof (cases "inc = []")
      case True
      then have "\<forall>name \<in> set (map fst es). \<not> isdir_entry es name"
        using assms Some by (simp add: selected_def)
      then have "filter (isdir_entry es) (map fst es) = []"
        by (simp add: filter_empty_conv)
      then show ?thesis
        using Some True by (simp add: discover_datasets_def listdir_def entries_of_def)
    next
      case False
      have "\<forall>name \<in> set ?entries. str_lower lib name \<notin> set (map (str_lower lib) inc)"
        using assms Some False unfolding set_e by (auto simp: selected_def)
      then have "filter (\<lambda>name. str_lower lib name \<in> set (map (str_lower lib) inc)) ?entries = []"
        unfolding filter_empty_conv by blast
      then show ?thesis
        using Some False by (simp add: discover_datasets_def listdir_def entries_of_def)
    qed
  qed
qed

text \<open>
  C9, as amended. When the base directory exists and none of its entries is a subdirectory
  that passes the case-insensitive name filter (in particular when it is empty), the run
  ends with the fatal "no dataset folders found" exit, no dataset file has been opened and
  there is no result.
\<close>

theorem analyze_no_datasets:
  assumes "fs base_dir = Some (Dir es)"
    and "\<forall>name \<in> set (map fst es). \<not> selected lib es include name"
  shows "analyze lib fs base_dir top_n include per_file =
           ([], Inl (SystemExit (''No dataset folders found under '' @ base_dir @ ''.'')))"
  unfolding analyze_def assms(1) discover_none [OF assms(2)] by simp

theorem analyze_no_datasets_witness:
  "analyze latin1
     (\<lambda>p. if p = ''TemporalKGs''
           then Some (Dir [(''icews14'', Dir [(''train.txt'', File [])]), (''notes.txt'', File [])])
           else None)
     ''TemporalKGs'' 5 (Some [''YAGO'']) False =
   ([], Inl (SystemExit ''No dataset folders found under TemporalKGs.''))"
proof -
  have n: "\<forall>name \<in> set (map fst [(''icews14'', Dir [(''train.txt'', File [])]), (''notes.txt'', File [])]).
      \<not> selected latin1 [(''icews14'', Dir [(''train.txt'', File [])]), (''notes.txt'', File [])]
           (Some [''YAGO'']) name"
    by (simp add: selected_def isdir_entry_def latin1_def char_eval)
  show ?thesis
    using analyze_no_datasets
      [of "\<lambda>p. if p = ''TemporalKGs''
                 then Some (Dir [(''icews14'', Dir [(''train.txt'', File [])]), (''notes.txt'', File [])])
                 else None"
          "''TemporalKGs''"
          "[(''icews14'', Dir [(''train.txt'', File [])]), (''notes.txt'', File [])]"
          latin1 "Some [''YAGO'']" 5 False, OF _ n]
    by simp
qed

text \<open>
  C9 as stated fails for a base directory that does not exist: listing it raises the
  file-not-found error, which is what ends the run, again before any file is opened.
\<close>

theorem analyze_missing_base_counterexample:
  "analyze latin1 (\<lambda>p. None) ''TemporalKGs'' 5 None False = ([], Inl FileNotFoundError) \<and>
   snd (analyze latin1 (\<lambda>p. None) ''TemporalKGs'' 5 None False) \<noteq>
     Inl (SystemExit ''No dataset folders found under TemporalKGs.'')"
  by (simp add: analyze_def discover_datasets_def listdir_def)

section \<open>The eight-bit library outside the ASCII range\<close>

text \<open>
  The no-break space is whitespace: a line that ends in it after a tab is trimmed to the
  columns before, and a date followed by it is the date.
\<close>

lemma latin1_strip_nbsp:
  "strip latin1 (''A'' @ [tab] @ ''rel'' @ [tab] @ ''B'' @ [tab] @ ''since'' @ [tab, CHR 0xA0]) =
     ''A'' @ [tab] @ ''rel'' @ [tab] @ ''B'' @ [tab] @ ''since''"
  by (simp add: latin1_simps)

lemma latin1_nbsp_line_has_four_columns:
  "process_line latin1 ''wikidata''
     (''A'' @ [tab] @ ''rel'' @ [tab] @ ''B'' @ [tab] @ ''since'' @ [tab, CHR 0xA0]) init_stats =
   Inr (add_triple ''A'' ''rel'' ''B'' init_stats)"
  by (simp add: process_line_def parse_temporal_tokens_def Let_def latin1_simps)

lemma latin1_nbsp_short_line_skipped:
  "process_line latin1 ''generic'' (''A'' @ [tab] @ ''B'' @ [tab, CHR 0xA0]) init_stats =
   Inr init_stats"
  by (simp add: process_line_def Let_def latin1_simps)

text \<open>Lower case reaches the letters above the ASCII range.\<close>

lemma latin1_lower_agrave: "str_lower latin1 [CHR 0xC0, CHR ''b''] = [CHR 0xE0, CHR ''b'']"
  by (simp add: latin1_def char_eval)

end
